theory Spec2Isabelle
  imports Complex_Main
begin

section \<open>Checkout transaction engine (golang/checkout.go)\<close>

text \<open>
  A shallow embedding of the Go checkout handler. The relational store and the cache
  backend are explicit state; every call on a backend may fail, as decided by an oracle
  of the environment, so that each \<^verbatim>\<open>if err != nil\<close> of the source is a branch here.

  Conventions of the embedding:
  \<^item> \<^verbatim>\<open>float64\<close> amounts are real numbers: binary rounding error is not modelled;
  \<^item> Go's \<^verbatim>\<open>int\<close> and the store's INTEGER columns are unbounded integers;
  \<^item> \<^verbatim>\<open>time.Time\<close> is an integer instant;
  \<^item> identifiers (UUIDs, codes, payment references) are strings;
  \<^item> a backend call that fails has no effect on the backend;
  \<^item> the idempotency store holds responses, not their JSON text;
  \<^item> a table's column types do not coerce the values bound by the code.
\<close>

subsection \<open>Data model\<close>

type_synonym money = real
type_synonym instant = int

record CheckoutItem =
  item_ProductID :: string
  item_Qty :: int

record CheckoutRequest =
  UserID :: string
  CartID :: string
  Items :: "CheckoutItem list"
  Coupon :: string
  PaymentRef :: string

record CheckoutResponse =
  OrderID :: string
  Status :: string
  Total :: money

record CartItemDB =
  ProductID :: string
  Qty :: int
  UnitPrice :: money
  ItemStatus :: string

record CouponDB =
  Code :: string
  Type :: string
  Value :: money
  MaxUses :: "int option"
  UsedCount :: int
  StartsAt :: instant
  EndsAt :: instant

text \<open>Rows of the tables the checkout statements read and write.\<close>

record cart_row =
  cart_user_id :: string
  cart_status :: string

record cart_item_row =
  ci_cart_id :: string
  ci_product_id :: string
  ci_qty :: int
  ci_unit_price :: money

record inventory_row =
  available_qty :: int
  reserved_qty :: int

record order_row =
  order_id :: string
  order_user_id :: string
  order_status :: string
  order_subtotal :: money
  order_discount :: money
  order_tax :: money
  order_shipping :: money
  order_total :: money

record order_item_row =
  oi_id :: string
  oi_order_id :: string
  oi_product_id :: string
  oi_qty :: int
  oi_unit_price :: money

record event_row =
  event_user_id :: string
  event_type :: string
  event_order_id :: string
  event_total :: money
  event_cart_id :: string

record database =
  carts :: "string \<rightharpoonup> cart_row"
  cart_items :: "cart_item_row list"
  products :: "string \<rightharpoonup> string"
  coupons :: "string \<rightharpoonup> CouponDB"
  user_coupon_usage :: "string \<times> string \<rightharpoonup> int"
  users :: "string \<rightharpoonup> string"
  inventory :: "string \<times> string \<rightharpoonup> inventory_row"
  orders :: "order_row list"
  order_items :: "order_item_row list"
  events :: "event_row list"

text \<open>
  The cache backend, one map per key family of the source:
  \<^verbatim>\<open>idem:checkout:<paymentRef>\<close>, \<^verbatim>\<open>rl:user:<user>:checkout:<minute>\<close>,
  \<^verbatim>\<open>lock:checkout:<user>\<close>, \<^verbatim>\<open>cache:user:<user>:summary:*\<close>,
  \<^verbatim>\<open>leaderboard:top_buyers\<close> and \<^verbatim>\<open>stream:order_events\<close>.
  Expiries are recorded in seconds; the passing of time between requests is not modelled.
\<close>

record redis =
  idem :: "string \<rightharpoonup> CheckoutResponse"
  idem_ttl :: "string \<rightharpoonup> nat"
  rate :: "string \<times> int \<rightharpoonup> int"
  rate_ttl :: "string \<times> int \<rightharpoonup> nat"
  locks :: "string \<rightharpoonup> nat"
  summaries :: "string \<Rightarrow> string list"
  leaderboard :: "string \<rightharpoonup> money"
  stream :: "(string \<times> string \<times> money) list"

text \<open>
  Every call the handler makes on a backend. The cache calls and the transaction
  boundaries are appended to the trace of the world when they are attempted.
\<close>

datatype call =
    Redis_Get string
  | Redis_Incr string int
  | Redis_Expire string int nat
  | Redis_SetNX string nat
  | Redis_Del string
  | Redis_SetEx string nat
  | Redis_Keys string
  | Redis_DelKeys string
  | Redis_ZIncrBy string
  | Redis_XAdd string
  | Tx_Begin
  | Tx_Commit
  | Tx_Rollback
  | Select_Cart string string
  | Select_Items string
  | Scan_Item nat
  | Select_Coupon string
  | Select_Usage string string
  | Upsert_Usage string string
  | Update_Coupon string
  | Select_User string
  | Select_Inventory string string
  | Update_Inventory string string
  | Insert_Order string
  | Insert_OrderItem nat
  | Update_Cart string
  | Insert_Event string

record world =
  db :: database
  rd :: redis
  trace :: "call list"

text \<open>
  What a request reads from outside the two backends: which calls fail (and with which
  message), the two clock reads, and the fresh UUIDs.
\<close>

record env =
  fault :: "call \<Rightarrow> string option"
  now_unix :: int
  now_coupon :: instant
  order_uuid :: string
  item_uuid :: "nat \<Rightarrow> string"

text \<open>
  The errors of the source are \<^verbatim>\<open>errors.New\<close> values told apart by their message; an
  error handed up from a backend is \<open>Backend\<close> with the backend's message.
\<close>

datatype error =
    RateLimited
  | LockDenied
  | CartInvalid
  | CartEmpty
  | CouponInvalid
  | CouponAlreadyUsed
  | InsufficientInventory
  | Backend string

fun Error :: "error \<Rightarrow> string" where
  "Error RateLimited = ''Rate limit exceeded''"
| "Error LockDenied = ''Checkout in progress''"
| "Error CartInvalid = ''Cart not found or not open''"
| "Error CartEmpty = ''Cart is empty''"
| "Error CouponInvalid = ''Invalid or expired coupon''"
| "Error CouponAlreadyUsed = ''Coupon already used''"
| "Error InsufficientInventory = ''Insufficient inventory''"
| "Error (Backend m) = m"

subsection \<open>Pricing\<close>

text \<open>Go's conversion \<^verbatim>\<open>int(x)\<close> of a float drops the fraction (towards zero).\<close>

definition go_int :: "real \<Rightarrow> int" where
  "go_int x = (if 0 \<le> x then \<lfloor>x\<rfloor> else \<lceil>x\<rceil>)"

definition computeTax :: "money \<Rightarrow> money" where
  "computeTax amount = of_int (go_int (amount * 0.08 * 100)) / 100"

definition computeShipping :: "money \<Rightarrow> int \<Rightarrow> money" where
  "computeShipping subtotal itemCount =
     (if subtotal > 100 then 0 else 5.99 + of_int (itemCount - 1) * 0.99)"

definition maxFloat :: "real \<Rightarrow> real \<Rightarrow> real" where
  "maxFloat a b = (if a > b then a else b)"

text \<open>
  The TypeScript service (checkout.service.ts) computes the tax with \<^verbatim>\<open>Math.round\<close>,
  which rounds to the nearest integer, a tie upwards.
\<close>

definition js_round :: "real \<Rightarrow> int" where
  "js_round x = \<lfloor>x + 1 / 2\<rfloor>"

definition computeTax_ts :: "money \<Rightarrow> money" where
  "computeTax_ts amount = of_int (js_round (amount * 0.08 * 100)) / 100"

text \<open>The loop \<^verbatim>\<open>for _, item := range cartItems { subtotal += ... }\<close>.\<close>

definition cartSubtotal :: "CartItemDB list \<Rightarrow> money" where
  "cartSubtotal cartItems =
     foldl (\<lambda>subtotal item. subtotal + of_int (Qty item) * UnitPrice item) 0 cartItems"

subsection \<open>Calls on the cache backend\<close>

definition attempt :: "call \<Rightarrow> world \<Rightarrow> world" where
  "attempt c w = w\<lparr>trace := trace w @ [c]\<rparr>"

text \<open>
  \<^verbatim>\<open>Get\<close> on \<^verbatim>\<open>idem:checkout:<ref>\<close>. go-redis reports a missing key as the error
  \<^verbatim>\<open>redis.Nil\<close>.
\<close>

definition rdb_Get :: "env \<Rightarrow> string \<Rightarrow> world \<Rightarrow> (error + CheckoutResponse) \<times> world" where
  "rdb_Get e ref w =
     ((case fault e (Redis_Get ref) of
         Some m \<Rightarrow> Inl (Backend m)
       | None \<Rightarrow> (case idem (rd w) ref of
                    None \<Rightarrow> Inl (Backend ''redis: nil'')
                  | Some r \<Rightarrow> Inr r)),
      attempt (Redis_Get ref) w)"

text \<open>\<^verbatim>\<open>Incr\<close> on \<^verbatim>\<open>rl:user:<user>:checkout:<minute>\<close>: a missing key counts from 0.\<close>

definition rdb_Incr :: "env \<Rightarrow> string \<times> int \<Rightarrow> world \<Rightarrow> (error + int) \<times> world" where
  "rdb_Incr e k w =
     (let w1 = attempt (Redis_Incr (fst k) (snd k)) w in
      case fault e (Redis_Incr (fst k) (snd k)) of
        Some m \<Rightarrow> (Inl (Backend m), w1)
      | None \<Rightarrow>
          (let count = (case rate (rd w) k of None \<Rightarrow> 1 | Some c \<Rightarrow> c + 1)
           in (Inr count, w1\<lparr>rd := (rd w1)\<lparr>rate := (rate (rd w1))(k \<mapsto> count)\<rparr>\<rparr>)))"

definition rdb_Expire :: "env \<Rightarrow> string \<times> int \<Rightarrow> nat \<Rightarrow> world \<Rightarrow> world" where
  "rdb_Expire e k secs w =
     (let w1 = attempt (Redis_Expire (fst k) (snd k) secs) w in
      case fault e (Redis_Expire (fst k) (snd k) secs) of
        Some m \<Rightarrow> w1
      | None \<Rightarrow> w1\<lparr>rd := (rd w1)\<lparr>rate_ttl := (rate_ttl (rd w1))(k \<mapsto> secs)\<rparr>\<rparr>)"

text \<open>\<^verbatim>\<open>SetNX\<close> on \<^verbatim>\<open>lock:checkout:<user>\<close>: sets the key only when it is absent.\<close>

definition rdb_SetNX :: "env \<Rightarrow> string \<Rightarrow> nat \<Rightarrow> world \<Rightarrow> (error + bool) \<times> world" where
  "rdb_SetNX e user secs w =
     (let w1 = attempt (Redis_SetNX user secs) w in
      case fault e (Redis_SetNX user secs) of
        Some m \<Rightarrow> (Inl (Backend m), w1)
      | None \<Rightarrow>
          (case locks (rd w) user of
             Some held \<Rightarrow> (Inr False, w1)
           | None \<Rightarrow> (Inr True, w1\<lparr>rd := (rd w1)\<lparr>locks := (locks (rd w1))(user \<mapsto> secs)\<rparr>\<rparr>)))"

text \<open>\<^verbatim>\<open>Del\<close> on \<^verbatim>\<open>lock:checkout:<user>\<close>; the source ignores its result.\<close>

definition rdb_Del :: "env \<Rightarrow> string \<Rightarrow> world \<Rightarrow> world" where
  "rdb_Del e user w =
     (let w1 = attempt (Redis_Del user) w in
      case fault e (Redis_Del user) of
        Some m \<Rightarrow> w1
      | None \<Rightarrow> w1\<lparr>rd := (rd w1)\<lparr>locks := (locks (rd w1))(user := None)\<rparr>\<rparr>)"

text \<open>\<^verbatim>\<open>SetEx\<close> on \<^verbatim>\<open>idem:checkout:<ref>\<close>; the source ignores its result.\<close>

definition rdb_SetEx :: "env \<Rightarrow> string \<Rightarrow> CheckoutResponse \<Rightarrow> nat \<Rightarrow> world \<Rightarrow> world" where
  "rdb_SetEx e ref resp secs w =
     (let w1 = attempt (Redis_SetEx ref secs) w in
      case fault e (Redis_SetEx ref secs) of
        Some m \<Rightarrow> w1
      | None \<Rightarrow> w1\<lparr>rd := (rd w1)\<lparr>idem := (idem (rd w1))(ref \<mapsto> resp),
                               idem_ttl := (idem_ttl (rd w1))(ref \<mapsto> secs)\<rparr>\<rparr>)"

subsection \<open>Post-commit fan-out\<close>

text \<open>
  The keys matching \<^verbatim>\<open>cache:user:<user>:summary:*\<close> are the user's entry of
  \<open>summaries\<close>. The result of every call is ignored by the source.
\<close>

definition postCommitRedisOps :: "env \<Rightarrow> string \<Rightarrow> string \<Rightarrow> money \<Rightarrow> world \<Rightarrow> world" where
  "postCommitRedisOps e userID orderID amount w =
     (let w1 = attempt (Redis_Keys userID) w;
          keys = (case fault e (Redis_Keys userID) of
                    Some m \<Rightarrow> []
                  | None \<Rightarrow> summaries (rd w) userID);
          w2 = (if length keys > 0
                then (let w' = attempt (Redis_DelKeys userID) w1 in
                      case fault e (Redis_DelKeys userID) of
                        Some m \<Rightarrow> w'
                      | None \<Rightarrow> w'\<lparr>rd := (rd w')\<lparr>summaries := (summaries (rd w'))(userID := [])\<rparr>\<rparr>)
                else w1);
          w3 = attempt (Redis_ZIncrBy userID) w2;
          w4 = (case fault e (Redis_ZIncrBy userID) of
                  Some m \<Rightarrow> w3
                | None \<Rightarrow>
                    w3\<lparr>rd := (rd w3)\<lparr>leaderboard := (leaderboard (rd w3))
                      (userID \<mapsto> (case leaderboard (rd w3) userID of
                                     None \<Rightarrow> amount
                                   | Some score \<Rightarrow> score + amount))\<rparr>\<rparr>);
          w5 = attempt (Redis_XAdd userID) w4
      in case fault e (Redis_XAdd userID) of
           Some m \<Rightarrow> w5
         | None \<Rightarrow> w5\<lparr>rd := (rd w5)\<lparr>stream := stream (rd w5) @ [(userID, orderID, amount)]\<rparr>\<rparr>)"

subsection \<open>Statements of the transaction\<close>

text \<open>
  \<^verbatim>\<open>tx.QueryRow(...).Scan(...)\<close> returns an error when the call fails and when no row
  matches; the source never tells the two apart. \<open>None\<close> is that error.
\<close>

definition QueryRow :: "env \<Rightarrow> call \<Rightarrow> 'a option \<Rightarrow> 'a option" where
  "QueryRow e c row = (case fault e c of Some m \<Rightarrow> None | None \<Rightarrow> row)"

text \<open>
  The rows of \<^verbatim>\<open>cart_items ci JOIN products p ON p.id = ci.product_id WHERE ci.cart_id = $1\<close>,
  in table order.
\<close>

definition joinCartItems :: "database \<Rightarrow> string \<Rightarrow> CartItemDB list" where
  "joinCartItems d cartID =
     List.map_filter
       (\<lambda>ci. if ci_cart_id ci = cartID
             then (case products d (ci_product_id ci) of
                     None \<Rightarrow> None
                   | Some st \<Rightarrow> Some \<lparr>ProductID = ci_product_id ci, Qty = ci_qty ci,
                                      UnitPrice = ci_unit_price ci, ItemStatus = st\<rparr>)
             else None)
       (cart_items d)"

text \<open>The loop \<^verbatim>\<open>for rows.Next() { rows.Scan(...); cartItems = append(cartItems, item) }\<close>.\<close>

fun scanRows :: "env \<Rightarrow> nat \<Rightarrow> CartItemDB list \<Rightarrow> error + CartItemDB list" where
  "scanRows e n [] = Inr []"
| "scanRows e n (r # rows) =
     (case fault e (Scan_Item n) of
        Some m \<Rightarrow> Inl (Backend m)
      | None \<Rightarrow> (case scanRows e (Suc n) rows of
                   Inl err \<Rightarrow> Inl err
                 | Inr cartItems \<Rightarrow> Inr (r # cartItems)))"

definition processCoupon ::
  "env \<Rightarrow> database \<Rightarrow> string \<Rightarrow> string \<Rightarrow> CartItemDB list \<Rightarrow> error + (money \<times> database)" where
  "processCoupon e d userID couponCode cartItems =
     (case QueryRow e (Select_Coupon couponCode) (coupons d couponCode) of
        None \<Rightarrow> Inl CouponInvalid
      | Some coupon \<Rightarrow>
          if now_coupon e < StartsAt coupon \<or> now_coupon e > EndsAt coupon
          then Inl CouponInvalid
          else if (case MaxUses coupon of None \<Rightarrow> False | Some m \<Rightarrow> UsedCount coupon \<ge> m)
          then Inl CouponInvalid
          else if (case QueryRow e (Select_Usage userID couponCode)
                          (user_coupon_usage d (userID, couponCode)) of
                     None \<Rightarrow> False
                   | Some usedCount \<Rightarrow> usedCount \<ge> 1)
          then Inl CouponAlreadyUsed
          else
            (case fault e (Upsert_Usage userID couponCode) of
               Some m \<Rightarrow> Inl (Backend m)
             | None \<Rightarrow>
                 (let d1 = d\<lparr>user_coupon_usage := (user_coupon_usage d)
                            ((userID, couponCode) \<mapsto>
                               (case user_coupon_usage d (userID, couponCode) of
                                  None \<Rightarrow> 1
                                | Some n \<Rightarrow> n + 1))\<rparr>
                  in case fault e (Update_Coupon couponCode) of
                       Some m \<Rightarrow> Inl (Backend m)
                     | None \<Rightarrow>
                         (let d2 = d1\<lparr>coupons := (coupons d1)
                                    (couponCode := map_option
                                       (\<lambda>c. c\<lparr>UsedCount := UsedCount c + 1\<rparr>)
                                       (coupons d1 couponCode))\<rparr>;
                              subtotal = cartSubtotal cartItems
                          in if Type coupon = ''percentage''
                             then Inr (subtotal * (Value coupon / 100), d2)
                             else Inr (Value coupon, d2)))))"

definition warehouseByRegion :: "string \<rightharpoonup> string" where
  "warehouseByRegion = map_of
     [(''us-east'', ''11111111-1111-1111-1111-111111111111''),
      (''us-west'', ''22222222-2222-2222-2222-222222222222''),
      (''eu-west'', ''33333333-3333-3333-3333-333333333333''),
      (''ap-southeast'', ''44444444-4444-4444-4444-444444444444'')]"

text \<open>Indexing a Go map with a missing key gives the zero value, the empty string.\<close>

definition mapIndex :: "(string \<rightharpoonup> string) \<Rightarrow> string \<Rightarrow> string" where
  "mapIndex m k = (case m k of None \<Rightarrow> [] | Some v \<Rightarrow> v)"

definition getWarehouseForUser :: "env \<Rightarrow> database \<Rightarrow> string \<Rightarrow> string" where
  "getWarehouseForUser e d userID =
     (case QueryRow e (Select_User userID) (users d userID) of
        None \<Rightarrow> mapIndex warehouseByRegion ''us-east''
      | Some region \<Rightarrow>
          (case warehouseByRegion region of
             Some wh \<Rightarrow> wh
           | None \<Rightarrow> mapIndex warehouseByRegion ''us-east''))"

text \<open>The body of the loop of \<^verbatim>\<open>reserveInventory\<close>, for one cart item.\<close>

definition reserveItem :: "env \<Rightarrow> string \<Rightarrow> CartItemDB \<Rightarrow> database \<Rightarrow> error + database" where
  "reserveItem e warehouseID item d =
     (case QueryRow e (Select_Inventory (ProductID item) warehouseID)
             (inventory d (ProductID item, warehouseID)) of
        None \<Rightarrow> Inl InsufficientInventory
      | Some row \<Rightarrow>
          if available_qty row - reserved_qty row < Qty item
          then Inl InsufficientInventory
          else
            (case fault e (Update_Inventory (ProductID item) warehouseID) of
               Some m \<Rightarrow> Inl (Backend m)
             | None \<Rightarrow>
                 Inr (d\<lparr>inventory := (inventory d)
                        ((ProductID item, warehouseID) := map_option
                           (\<lambda>r. r\<lparr>reserved_qty := reserved_qty r + Qty item\<rparr>)
                           (inventory d (ProductID item, warehouseID)))\<rparr>)))"

fun reserveInventory :: "env \<Rightarrow> CartItemDB list \<Rightarrow> string \<Rightarrow> database \<Rightarrow> error + database" where
  "reserveInventory e [] warehouseID d = Inr d"
| "reserveInventory e (item # rest) warehouseID d =
     (case reserveItem e warehouseID item d of
        Inl err \<Rightarrow> Inl err
      | Inr d' \<Rightarrow> reserveInventory e rest warehouseID d')"

text \<open>The loop inserting one \<^verbatim>\<open>order_items\<close> row per cart item, each with a fresh UUID.\<close>

fun insertOrderItems ::
  "env \<Rightarrow> string \<Rightarrow> nat \<Rightarrow> CartItemDB list \<Rightarrow> database \<Rightarrow> error + database" where
  "insertOrderItems e orderID n [] d = Inr d"
| "insertOrderItems e orderID n (item # rest) d =
     (case fault e (Insert_OrderItem n) of
        Some m \<Rightarrow> Inl (Backend m)
      | None \<Rightarrow>
          insertOrderItems e orderID (Suc n) rest
            (d\<lparr>order_items := order_items d @
                 [\<lparr>oi_id = item_uuid e n, oi_order_id = orderID,
                   oi_product_id = ProductID item, oi_qty = Qty item,
                   oi_unit_price = UnitPrice item\<rparr>]\<rparr>))"

text \<open>
  Steps 3.1 and 3.2: the cart row of the request's cart and user, checked to be open, and
  then the cart's items.
\<close>

definition loadCart :: "env \<Rightarrow> CheckoutRequest \<Rightarrow> database \<Rightarrow> error + CartItemDB list" where
  "loadCart e req d =
     (case QueryRow e (Select_Cart (CartID req) (UserID req))
             (case carts d (CartID req) of
                None \<Rightarrow> None
              | Some c \<Rightarrow> if cart_user_id c = UserID req then Some c else None) of
        None \<Rightarrow> Inl CartInvalid
      | Some cart \<Rightarrow>
          if cart_status cart \<noteq> ''open'' then Inl CartInvalid
          else
            (case fault e (Select_Items (CartID req)) of
               Some m \<Rightarrow> Inl (Backend m)
             | None \<Rightarrow>
                 (case scanRows e 0 (joinCartItems d (CartID req)) of
                    Inl err \<Rightarrow> Inl err
                  | Inr cartItems \<Rightarrow>
                      if length cartItems = 0 then Inl CartEmpty else Inr cartItems)))"

text \<open>
  Steps 3.5 to 3.8: the totals, the order row and its items, the cart closed, the audit
  event. The result is the order's id, its total and the tables as the transaction sees them.
\<close>

definition persistOrder ::
  "env \<Rightarrow> CheckoutRequest \<Rightarrow> CartItemDB list \<Rightarrow> money \<Rightarrow> database
     \<Rightarrow> error + (string \<times> money \<times> database)" where
  "persistOrder e req cartItems discount d =
     (let subtotal = cartSubtotal cartItems;
          tax = computeTax (subtotal - discount);
          shipping = computeShipping subtotal (int (length cartItems));
          total' = maxFloat 0 (subtotal - discount + tax + shipping);
          orderID = order_uuid e
      in case fault e (Insert_Order orderID) of
           Some m \<Rightarrow> Inl (Backend m)
         | None \<Rightarrow>
             (case insertOrderItems e orderID 0 cartItems
                     (d\<lparr>orders := orders d @
                          [\<lparr>order_id = orderID, order_user_id = UserID req,
                            order_status = ''pending'', order_subtotal = subtotal,
                            order_discount = discount, order_tax = tax,
                            order_shipping = shipping, order_total = total'\<rparr>]\<rparr>) of
                Inl err \<Rightarrow> Inl err
              | Inr d1 \<Rightarrow>
                  (case fault e (Update_Cart (CartID req)) of
                     Some m \<Rightarrow> Inl (Backend m)
                   | None \<Rightarrow>
                       (let d2 = d1\<lparr>carts := (carts d1)
                                  (CartID req := map_option
                                     (\<lambda>c. c\<lparr>cart_status := ''closed''\<rparr>)
                                     (carts d1 (CartID req)))\<rparr>
                        in case fault e (Insert_Event (UserID req)) of
                             Some m \<Rightarrow> Inl (Backend m)
                           | None \<Rightarrow>
                               Inr (orderID, total',
                                    d2\<lparr>events := events d2 @
                                         [\<lparr>event_user_id = UserID req,
                                           event_type = ''ORDER_CREATED'',
                                           event_order_id = orderID,
                                           event_total = total',
                                           event_cart_id = CartID req\<rparr>]\<rparr>)))))"

text \<open>All the statements between \<^verbatim>\<open>Begin\<close> and \<^verbatim>\<open>Commit\<close>, on the transaction's view.\<close>

definition transactionBody ::
  "env \<Rightarrow> CheckoutRequest \<Rightarrow> database \<Rightarrow> error + (string \<times> money \<times> database)" where
  "transactionBody e req d =
     (case loadCart e req d of
        Inl err \<Rightarrow> Inl err
      | Inr cartItems \<Rightarrow>
          (case (if Coupon req \<noteq> []
                 then processCoupon e d (UserID req) (Coupon req) cartItems
                 else Inr (0, d)) of
             Inl err \<Rightarrow> Inl err
           | Inr (discount, d1) \<Rightarrow>
               (case reserveInventory e cartItems
                       (getWarehouseForUser e d1 (UserID req)) d1 of
                  Inl err \<Rightarrow> Inl err
                | Inr d2 \<Rightarrow> persistOrder e req cartItems discount d2)))"

subsection \<open>The transaction and the request\<close>

text \<open>
  The writes of the statements reach the tables only at \<^verbatim>\<open>Commit\<close>; the deferred
  \<^verbatim>\<open>Rollback\<close> drops them on every other path (and does nothing after a commit).
\<close>

definition executeCheckoutTransaction ::
  "env \<Rightarrow> CheckoutRequest \<Rightarrow> world \<Rightarrow> (error + CheckoutResponse) \<times> world" where
  "executeCheckoutTransaction e req w =
     (let w1 = attempt Tx_Begin w in
      case fault e Tx_Begin of
        Some m \<Rightarrow> (Inl (Backend m), w1)
      | None \<Rightarrow>
          (case transactionBody e req (db w1) of
             Inl err \<Rightarrow> (Inl err, attempt Tx_Rollback w1)
           | Inr (orderID, total', d) \<Rightarrow>
               (let w2 = attempt Tx_Commit w1 in
                case fault e Tx_Commit of
                  Some m \<Rightarrow> (Inl (Backend m), attempt Tx_Rollback w2)
                | None \<Rightarrow>
                    (let w3 = postCommitRedisOps e (UserID req) orderID total' (w2\<lparr>db := d\<rparr>)
                     in (Inr \<lparr>OrderID = orderID, Status = ''pending'', Total = total'\<rparr>,
                         attempt Tx_Rollback w3)))))"

text \<open>Go's \<^verbatim>\<open>/\<close> on integers truncates towards zero.\<close>

definition go_quot :: "int \<Rightarrow> int \<Rightarrow> int" where
  "go_quot a b = sgn a * sgn b * (\<bar>a\<bar> div \<bar>b\<bar>)"

text \<open>
  Steps 2 to 5 of \<^verbatim>\<open>processCheckout\<close>: the lock, the transaction, the idempotency
  record, and the deferred \<^verbatim>\<open>Del\<close> of the lock key, which runs on every return after
  the lock is taken.
\<close>

definition checkoutUnderLock ::
  "env \<Rightarrow> CheckoutRequest \<Rightarrow> world \<Rightarrow> (error + CheckoutResponse) \<times> world" where
  "checkoutUnderLock e req w2 =
     (case rdb_SetNX e (UserID req) 5 w2 of
        (Inl err, w3) \<Rightarrow> (Inl err, w3)
      | (Inr locked, w3) \<Rightarrow>
          if \<not> locked then (Inl LockDenied, w3)
          else
            (case executeCheckoutTransaction e req w3 of
               (Inl err, w4) \<Rightarrow> (Inl err, rdb_Del e (UserID req) w4)
             | (Inr result, w4) \<Rightarrow>
                 (Inr result,
                  rdb_Del e (UserID req) (rdb_SetEx e (PaymentRef req) result 600 w4))))"

text \<open>Steps 0 and 1 of \<^verbatim>\<open>processCheckout\<close>, and then the rest.\<close>

definition processCheckout ::
  "env \<Rightarrow> CheckoutRequest \<Rightarrow> world \<Rightarrow> (error + CheckoutResponse) \<times> world" where
  "processCheckout e req w =
     (case rdb_Get e (PaymentRef req) w of
        (Inr resp, w0) \<Rightarrow> (Inr resp, w0)
      | (Inl miss, w0) \<Rightarrow>
          (let currentMinute = go_quot (now_unix e) 60;
               rlKey = (UserID req, currentMinute)
           in case rdb_Incr e rlKey w0 of
                (Inl err, w1) \<Rightarrow> (Inl err, w1)
              | (Inr count, w1) \<Rightarrow>
                  (let w2 = (if count = 1 then rdb_Expire e rlKey 90 w1 else w1) in
                   if count > 10 then (Inl RateLimited, w2)
                   else checkoutUnderLock e req w2)))"

subsection \<open>The HTTP handler\<close>

datatype body = ErrorJSON string | ResultJSON CheckoutResponse

record http_response =
  status :: nat
  payload :: body

text \<open>The \<^verbatim>\<open>switch err.Error()\<close> of the handler.\<close>

definition statusFor :: "string \<Rightarrow> nat" where
  "statusFor m =
     (if m = ''Rate limit exceeded'' then 429
      else if m = ''Checkout in progress'' then 409
      else if m = ''Cart not found or not open'' \<or> m = ''Cart is empty''
              \<or> m = ''Invalid or expired coupon'' \<or> m = ''Coupon already used'' then 400
      else if m = ''Insufficient inventory'' then 409
      else 500)"

text \<open>
  The handler takes what \<^verbatim>\<open>BodyParser\<close> made of the body: its error, or the request.
\<close>

definition Checkout :: "env \<Rightarrow> string + CheckoutRequest \<Rightarrow> world \<Rightarrow> http_response \<times> world" where
  "Checkout e parsed w =
     (case parsed of
        Inl m \<Rightarrow> (\<lparr>status = 400, payload = ErrorJSON m\<rparr>, w)
      | Inr req \<Rightarrow>
          if UserID req = [] \<or> CartID req = [] \<or> PaymentRef req = []
          then (\<lparr>status = 400,
                 payload = ErrorJSON ''userId, cartId, and paymentRef are required''\<rparr>, w)
          else if length (Items req) = 0
          then (\<lparr>status = 400, payload = ErrorJSON ''items are required''\<rparr>, w)
          else
            (case processCheckout e req w of
               (Inl err, w') \<Rightarrow>
                 (\<lparr>status = statusFor (Error err), payload = ErrorJSON (Error err)\<rparr>, w')
             | (Inr result, w') \<Rightarrow> (\<lparr>status = 200, payload = ResultJSON result\<rparr>, w')))"

subsection \<open>A concrete store for the scenarios\<close>

text \<open>
  User \<open>u1\<close> of region us-east holds the open cart \<open>c1\<close> with two of product \<open>A\<close> at
  20.00 and one of product \<open>B\<close> at 15.00; the coupon \<open>TEN\<close> takes 10 percent.
\<close>

definition us_east_warehouse :: string where
  "us_east_warehouse = ''11111111-1111-1111-1111-111111111111''"

definition demo_db :: database where
  "demo_db =
     \<lparr>carts = [''c1'' \<mapsto> \<lparr>cart_user_id = ''u1'', cart_status = ''open''\<rparr>],
      cart_items =
        [\<lparr>ci_cart_id = ''c1'', ci_product_id = ''A'', ci_qty = 2, ci_unit_price = 20\<rparr>,
         \<lparr>ci_cart_id = ''c1'', ci_product_id = ''B'', ci_qty = 1, ci_unit_price = 15\<rparr>],
      products = [''A'' \<mapsto> ''active'', ''B'' \<mapsto> ''active''],
      coupons =
        [''TEN'' \<mapsto> \<lparr>Code = ''TEN'', Type = ''percentage'', Value = 10, MaxUses = Some 100,
                     UsedCount = 0, StartsAt = 0, EndsAt = 1000\<rparr>],
      user_coupon_usage = Map.empty,
      users = [''u1'' \<mapsto> ''us-east''],
      inventory =
        [(''A'', us_east_warehouse) \<mapsto> \<lparr>available_qty = 10, reserved_qty = 0\<rparr>,
         (''B'', us_east_warehouse) \<mapsto> \<lparr>available_qty = 5, reserved_qty = 4\<rparr>],
      orders = [], order_items = [], events = []\<rparr>"

definition demo_redis :: redis where
  "demo_redis =
     \<lparr>idem = Map.empty, idem_ttl = Map.empty, rate = Map.empty, rate_ttl = Map.empty,
      locks = Map.empty, summaries = (\<lambda>u. []), leaderboard = Map.empty, stream = []\<rparr>"

definition demo_world :: world where
  "demo_world = \<lparr>db = demo_db, rd = demo_redis, trace = []\<rparr>"

definition demo_env :: env where
  "demo_env =
     \<lparr>fault = (\<lambda>c. None), now_unix = 1700000000, now_coupon = 500,
      order_uuid = ''o1'', item_uuid = (\<lambda>n. ''i'')\<rparr>"

definition demo_request :: CheckoutRequest where
  "demo_request =
     \<lparr>UserID = ''u1'', CartID = ''c1'',
      Items = [\<lparr>item_ProductID = ''A'', item_Qty = 2\<rparr>, \<lparr>item_ProductID = ''B'', item_Qty = 1\<rparr>],
      Coupon = [], PaymentRef = ''p1''\<rparr>"

text \<open>
  Variations of the store: product \<open>B\<close> fully reserved (available 5, reserved 5); a cart of
  a single item at 9.99; the idempotency record of payment reference \<open>p1\<close> already present.
\<close>

definition sold_out_world :: world where
  "sold_out_world =
     demo_world\<lparr>db := demo_db\<lparr>inventory :=
       [(''A'', us_east_warehouse) \<mapsto> \<lparr>available_qty = 10, reserved_qty = 0\<rparr>,
        (''B'', us_east_warehouse) \<mapsto> \<lparr>available_qty = 5, reserved_qty = 5\<rparr>]\<rparr>\<rparr>"

definition cheap_world :: world where
  "cheap_world =
     demo_world\<lparr>db := demo_db\<lparr>cart_items :=
       [\<lparr>ci_cart_id = ''c1'', ci_product_id = ''A'', ci_qty = 1, ci_unit_price = 9.99\<rparr>]\<rparr>\<rparr>"

definition stored_response :: CheckoutResponse where
  "stored_response = \<lparr>OrderID = ''o1'', Status = ''pending'', Total = 66.38\<rparr>"

definition replay_world :: world where
  "replay_world = demo_world\<lparr>rd := demo_redis\<lparr>idem := [''p1'' \<mapsto> stored_response]\<rparr>\<rparr>"

text \<open>The calls attempted between two worlds of one run.\<close>

definition calls_since :: "world \<Rightarrow> world \<Rightarrow> call list" where
  "calls_since w w' = drop (length (trace w)) (trace w')"

text \<open>A row before and after: the same availability, no less reserved.\<close>

definition only_reserves :: "inventory_row option \<Rightarrow> inventory_row option \<Rightarrow> bool" where
  "only_reserves before after =
     (case (before, after) of
        (None, None) \<Rightarrow> True
      | (Some row, Some row') \<Rightarrow>
          available_qty row' = available_qty row \<and> reserved_qty row \<le> reserved_qty row'
      | _ \<Rightarrow> False)"

text \<open>
  The store after the coupon \<open>TEN\<close> has run out (it ended at instant 100, before the clock
  read of \<open>demo_env\<close>), with the usage row of user \<open>u1\<close> at 1.
\<close>

definition expired_db :: database where
  "expired_db =
     demo_db\<lparr>coupons :=
                [''TEN'' \<mapsto> \<lparr>Code = ''TEN'', Type = ''percentage'', Value = 10,
                             MaxUses = Some 100, UsedCount = 1, StartsAt = 0, EndsAt = 100\<rparr>],
             user_coupon_usage := [(''u1'', ''TEN'') \<mapsto> 1]\<rparr>"

text \<open>
  The clock of \<open>demo_env\<close> reads minute 28333333. The store when user \<open>u1\<close> has made 9,
  and 10, attempts in that minute.
\<close>

definition tenth_attempt_world :: world where
  "tenth_attempt_world = demo_world\<lparr>rd := demo_redis\<lparr>rate := [(''u1'', 28333333) \<mapsto> 9]\<rparr>\<rparr>"

definition eleventh_attempt_world :: world where
  "eleventh_attempt_world = demo_world\<lparr>rd := demo_redis\<lparr>rate := [(''u1'', 28333333) \<mapsto> 10]\<rparr>\<rparr>"

text \<open>
  The environment in which the \<^verbatim>\<open>SELECT ... FOR UPDATE\<close> of the inventory row of
  product \<open>A\<close> fails at the store, and no other call does.
\<close>

definition deadlock_env :: env where
  "deadlock_env =
     demo_env\<lparr>fault := (\<lambda>c. if c = Select_Inventory ''A'' us_east_warehouse
                               then Some ''deadlock detected'' else None)\<rparr>"

section \<open>Lemmas\<close>

subsection \<open>Unfolding and evaluation\<close>

lemmas demo_defs = demo_db_def demo_redis_def demo_world_def demo_env_def demo_request_def
  us_east_warehouse_def sold_out_world_def cheap_world_def stored_response_def replay_world_def
  tenth_attempt_world_def eleventh_attempt_world_def deadlock_env_def

lemmas pricing_defs = cartSubtotal_def computeTax_def go_int_def computeShipping_def maxFloat_def

lemmas redis_defs = attempt_def rdb_Get_def rdb_Incr_def rdb_Expire_def rdb_SetNX_def rdb_Del_def
  rdb_SetEx_def postCommitRedisOps_def

lemmas tx_defs = QueryRow_def joinCartItems_def List.map_filter_def loadCart_def processCoupon_def
  warehouseByRegion_def mapIndex_def getWarehouseForUser_def reserveItem_def persistOrder_def
  transactionBody_def executeCheckoutTransaction_def

lemmas run_defs = demo_defs pricing_defs redis_defs tx_defs checkoutUnderLock_def
  processCheckout_def go_quot_def
  Checkout_def statusFor_def calls_since_def Let_def

subsection \<open>What the fan-out and the transaction leave alone\<close>

lemma postCommit_db [simp]: "db (postCommitRedisOps e u oid amt w) = db w"
  by (simp add: postCommitRedisOps_def attempt_def Let_def split: option.splits)

lemma postCommit_frame:
  "idem (rd (postCommitRedisOps e u oid amt w)) = idem (rd w)"
  "idem_ttl (rd (postCommitRedisOps e u oid amt w)) = idem_ttl (rd w)"
  "rate (rd (postCommitRedisOps e u oid amt w)) = rate (rd w)"
  "rate_ttl (rd (postCommitRedisOps e u oid amt w)) = rate_ttl (rd w)"
  "locks (rd (postCommitRedisOps e u oid amt w)) = locks (rd w)"
  by (simp_all add: postCommitRedisOps_def attempt_def Let_def split: option.splits)

lemma exec_failure:
  assumes "executeCheckoutTransaction e req w = (Inl err, w')"
  shows "db w' = db w" and "rd w' = rd w"
  using assms
  by (auto simp: executeCheckoutTransaction_def attempt_def Let_def
      split: option.splits sum.splits prod.splits)

lemma exec_frame:
  assumes "executeCheckoutTransaction e req w = (res, w')"
  shows "idem (rd w') = idem (rd w)" "idem_ttl (rd w') = idem_ttl (rd w)"
    "rate (rd w') = rate (rd w)" "rate_ttl (rd w') = rate_ttl (rd w)"
    "locks (rd w') = locks (rd w)"
  using assms
  by (auto simp: executeCheckoutTransaction_def attempt_def Let_def postCommit_frame
      split: option.splits sum.splits prod.splits)

lemma processCheckout_failure:
  assumes "processCheckout e req w = (Inl err, w')"
  shows "db w' = db w \<and> idem (rd w') = idem (rd w) \<and> idem_ttl (rd w') = idem_ttl (rd w)"
  using assms
  by (auto simp: processCheckout_def checkoutUnderLock_def rdb_Get_def rdb_Incr_def
      rdb_Expire_def rdb_SetNX_def rdb_Del_def attempt_def Let_def
      dest: exec_failure exec_frame
      split: option.splits sum.splits prod.splits if_splits)

subsection \<open>The order of a committed checkout\<close>

lemma attempt_simps [simp]:
  "db (attempt c w) = db w" "rd (attempt c w) = rd w" "trace (attempt c w) = trace w @ [c]"
  by (simp_all add: attempt_def)

lemma scanRows_rows: "scanRows e n rows = Inr cartItems \<Longrightarrow> cartItems = rows"
  by (induction rows arbitrary: n cartItems) (auto split: option.splits sum.splits)

lemma loadCart_items:
  assumes "loadCart e req d = Inr cartItems"
  shows "cartItems = joinCartItems d (CartID req)" and "cartItems \<noteq> []"
  using assms
  by (auto simp: loadCart_def dest: scanRows_rows split: option.splits sum.splits if_splits)

lemma processCoupon_frame:
  assumes "processCoupon e d u c cartItems = Inr (discount, d')"
  shows "orders d' = orders d" "order_items d' = order_items d" "events d' = events d"
    "carts d' = carts d" "cart_items d' = cart_items d" "products d' = products d"
    "users d' = users d" "inventory d' = inventory d"
  using assms
  by (auto simp: processCoupon_def Let_def split: option.splits if_splits)

lemma reserveItem_frame:
  assumes "reserveItem e wh item d = Inr d'"
  shows "orders d' = orders d" "order_items d' = order_items d" "events d' = events d"
    "carts d' = carts d" "cart_items d' = cart_items d" "products d' = products d"
    "users d' = users d" "coupons d' = coupons d" "user_coupon_usage d' = user_coupon_usage d"
  using assms
  by (auto simp: reserveItem_def split: option.splits if_splits)

lemma reserveInventory_frame:
  assumes "reserveInventory e cartItems wh d = Inr d'"
  shows "orders d' = orders d \<and> order_items d' = order_items d \<and> events d' = events d
    \<and> carts d' = carts d \<and> cart_items d' = cart_items d \<and> products d' = products d
    \<and> users d' = users d \<and> coupons d' = coupons d
    \<and> user_coupon_usage d' = user_coupon_usage d"
  using assms
proof (induction cartItems arbitrary: d)
  case Nil
  then show ?case by simp
next
  case (Cons item rest)
  then obtain d1 where step: "reserveItem e wh item d = Inr d1"
    and rest: "reserveInventory e rest wh d1 = Inr d'"
    by (auto split: sum.splits)
  from Cons.IH [OF rest] reserveItem_frame [OF step] show ?case by simp
qed

lemma insertOrderItems_frame:
  assumes "insertOrderItems e oid n cartItems d = Inr d'"
  shows "orders d' = orders d \<and> events d' = events d \<and> carts d' = carts d
    \<and> inventory d' = inventory d \<and> coupons d' = coupons d
    \<and> user_coupon_usage d' = user_coupon_usage d"
  using assms
  by (induction cartItems arbitrary: n d) (auto split: option.splits)

lemma persistOrder_order:
  assumes "persistOrder e req cartItems discount d = Inr (oid, tot, d')"
  shows "orders d' = orders d @
           [\<lparr>order_id = oid, order_user_id = UserID req, order_status = ''pending'',
             order_subtotal = cartSubtotal cartItems, order_discount = discount,
             order_tax = computeTax (cartSubtotal cartItems - discount),
             order_shipping = computeShipping (cartSubtotal cartItems) (int (length cartItems)),
             order_total = tot\<rparr>]"
    and "tot = maxFloat 0 (cartSubtotal cartItems - discount
               + computeTax (cartSubtotal cartItems - discount)
               + computeShipping (cartSubtotal cartItems) (int (length cartItems)))"
    and "oid = order_uuid e"
  using assms
  by (auto simp: persistOrder_def Let_def dest!: insertOrderItems_frame
      split: option.splits sum.splits)

lemma transactionBody_order:
  assumes "transactionBody e req d = Inr (oid, tot, d')"
  shows "\<exists>discount cartItems. cartItems = joinCartItems d (CartID req) \<and> cartItems \<noteq> []
    \<and> (Coupon req = [] \<longrightarrow> discount = 0)
    \<and> orders d' = orders d @
           [\<lparr>order_id = oid, order_user_id = UserID req, order_status = ''pending'',
             order_subtotal = cartSubtotal cartItems, order_discount = discount,
             order_tax = computeTax (cartSubtotal cartItems - discount),
             order_shipping = computeShipping (cartSubtotal cartItems) (int (length cartItems)),
             order_total = tot\<rparr>]
    \<and> tot = maxFloat 0 (cartSubtotal cartItems - discount
               + computeTax (cartSubtotal cartItems - discount)
               + computeShipping (cartSubtotal cartItems) (int (length cartItems)))
    \<and> oid = order_uuid e"
proof -
  from assms obtain cartItems discount d1 d2 where
    load: "loadCart e req d = Inr cartItems"
    and coupon: "(if Coupon req \<noteq> [] then processCoupon e d (UserID req) (Coupon req) cartItems
                  else Inr (0, d)) = Inr (discount, d1)"
    and reserve: "reserveInventory e cartItems (getWarehouseForUser e d1 (UserID req)) d1 = Inr d2"
    and persist: "persistOrder e req cartItems discount d2 = Inr (oid, tot, d')"
    by (auto simp: transactionBody_def split: sum.splits prod.splits)
  have "orders d1 = orders d"
    using coupon by (auto dest: processCoupon_frame split: if_splits)
  moreover have "orders d2 = orders d1"
    using reserveInventory_frame [OF reserve] by simp
  moreover have "Coupon req = [] \<longrightarrow> discount = 0"
    using coupon by auto
  ultimately show ?thesis
    using loadCart_items [OF load] persistOrder_order [OF persist] by simp
qed

lemma exec_success:
  assumes "executeCheckoutTransaction e req w = (Inr resp, w')"
  shows "\<exists>oid tot. transactionBody e req (db w) = Inr (oid, tot, db w')
           \<and> resp = \<lparr>OrderID = oid, Status = ''pending'', Total = tot\<rparr>"
  using assms
  by (auto simp: executeCheckoutTransaction_def Let_def
      split: option.splits sum.splits prod.splits)

subsection \<open>Inventory reservation\<close>

lemma reserveItem_result:
  assumes "fault e (Select_Inventory (ProductID item) wh) = None"
    and "fault e (Update_Inventory (ProductID item) wh) = None"
  shows "reserveItem e wh item d =
    (case inventory d (ProductID item, wh) of
       None \<Rightarrow> Inl InsufficientInventory
     | Some row \<Rightarrow>
         if available_qty row - reserved_qty row < Qty item then Inl InsufficientInventory
         else Inr (d\<lparr>inventory := (inventory d)((ProductID item, wh) \<mapsto>
                      row\<lparr>reserved_qty := reserved_qty row + Qty item\<rparr>)\<rparr>))"
  using assms by (simp add: reserveItem_def QueryRow_def split: option.splits)

lemma reserveInventory_append:
  "reserveInventory e (xs @ ys) wh d =
     (case reserveInventory e xs wh d of
        Inl err \<Rightarrow> Inl err
      | Inr d1 \<Rightarrow> reserveInventory e ys wh d1)"
  by (induction xs arbitrary: d) (auto split: sum.splits)

lemma reserveItem_rows:
  assumes "reserveItem e wh item d = Inr d'"
  shows "\<exists>row. inventory d (ProductID item, wh) = Some row
           \<and> Qty item \<le> available_qty row - reserved_qty row
           \<and> inventory d' = (inventory d)((ProductID item, wh) \<mapsto>
                 row\<lparr>reserved_qty := reserved_qty row + Qty item\<rparr>)"
  using assms
  by (auto simp: reserveItem_def QueryRow_def split: option.splits if_splits)

lemma reserveItem_invariant:
  assumes "reserveItem e wh item d = Inr d'"
    and "\<forall>k row. inventory d k = Some row \<longrightarrow> reserved_qty row \<le> available_qty row"
  shows "\<forall>k row. inventory d' k = Some row \<longrightarrow> reserved_qty row \<le> available_qty row"
  using reserveItem_rows [OF assms(1)] assms(2) by (auto split: if_splits)

lemma reserveInventory_invariant:
  assumes "reserveInventory e cartItems wh d = Inr d'"
    and "\<forall>k row. inventory d k = Some row \<longrightarrow> reserved_qty row \<le> available_qty row"
  shows "\<forall>k row. inventory d' k = Some row \<longrightarrow> reserved_qty row \<le> available_qty row"
  using assms
proof (induction cartItems arbitrary: d)
  case Nil
  then show ?case by simp
next
  case (Cons item rest)
  from Cons.prems(1) obtain d1 where step: "reserveItem e wh item d = Inr d1"
    and rest: "reserveInventory e rest wh d1 = Inr d'"
    by (auto split: sum.splits)
  show ?case
    by (rule Cons.IH [OF rest reserveItem_invariant [OF step Cons.prems(2)]])
qed

lemma only_reserves_refl: "only_reserves r r"
  by (simp add: only_reserves_def split: option.splits)

lemma only_reserves_trans:
  "only_reserves a b \<Longrightarrow> only_reserves b c \<Longrightarrow> only_reserves a c"
  by (auto simp: only_reserves_def split: option.splits)

lemma reserveItem_only_reserves:
  assumes "reserveItem e wh item d = Inr d'" and "1 \<le> Qty item"
  shows "only_reserves (inventory d k) (inventory d' k)"
  using reserveItem_rows [OF assms(1)] assms(2)
  by (auto simp: only_reserves_def split: option.splits if_splits)

lemma reserveInventory_only_reserves:
  assumes "reserveInventory e cartItems wh d = Inr d'"
    and "\<forall>item\<in>set cartItems. 1 \<le> Qty item"
  shows "only_reserves (inventory d k) (inventory d' k)"
  using assms
proof (induction cartItems arbitrary: d)
  case Nil
  then show ?case by (simp add: only_reserves_refl)
next
  case (Cons item rest)
  from Cons.prems(1) obtain d1 where step: "reserveItem e wh item d = Inr d1"
    and rest: "reserveInventory e rest wh d1 = Inr d'"
    by (auto split: sum.splits)
  have "only_reserves (inventory d k) (inventory d1 k)"
    using reserveItem_only_reserves [OF step] Cons.prems(2) by simp
  moreover have "only_reserves (inventory d1 k) (inventory d' k)"
    using Cons.IH [OF rest] Cons.prems(2) by simp
  ultimately show ?case by (rule only_reserves_trans)
qed

subsection \<open>Coupon validation and redemption\<close>

lemma processCoupon_result:
  assumes "fault e (Select_Coupon code) = None" and "fault e (Select_Usage user code) = None"
    and "fault e (Upsert_Usage user code) = None" and "fault e (Update_Coupon code) = None"
  shows "processCoupon e d user code cartItems =
    (case coupons d code of
       None \<Rightarrow> Inl CouponInvalid
     | Some c \<Rightarrow>
         if now_coupon e < StartsAt c \<or> EndsAt c < now_coupon e
            \<or> (case MaxUses c of None \<Rightarrow> False | Some m \<Rightarrow> m \<le> UsedCount c)
         then Inl CouponInvalid
         else if (case user_coupon_usage d (user, code) of None \<Rightarrow> False | Some n \<Rightarrow> 1 \<le> n)
         then Inl CouponAlreadyUsed
         else Inr (if Type c = ''percentage'' then cartSubtotal cartItems * (Value c / 100)
                   else Value c,
                   d\<lparr>user_coupon_usage := (user_coupon_usage d)((user, code) \<mapsto>
                        (case user_coupon_usage d (user, code) of None \<Rightarrow> 1 | Some n \<Rightarrow> n + 1)),
                     coupons := (coupons d)(code \<mapsto> c\<lparr>UsedCount := UsedCount c + 1\<rparr>)\<rparr>))"
  using assms
  by (simp add: processCoupon_def QueryRow_def Let_def split: option.splits)

lemma reserveInventory_errors:
  assumes "reserveInventory e cartItems wh d = Inl err"
  shows "err = InsufficientInventory \<or> (\<exists>m. err = Backend m)"
  using assms
  by (induction cartItems arbitrary: d)
    (auto simp: reserveItem_def split: sum.splits option.splits if_splits)

lemma insertOrderItems_errors:
  assumes "insertOrderItems e oid n cartItems d = Inl err"
  shows "\<exists>m. err = Backend m"
  using assms
  by (induction cartItems arbitrary: n d) (auto split: option.splits)

lemma persistOrder_errors:
  assumes "persistOrder e req cartItems discount d = Inl err"
  shows "\<exists>m. err = Backend m"
  using assms
  by (auto simp: persistOrder_def Let_def dest: insertOrderItems_errors
      split: option.splits sum.splits)

lemma transactionBody_coupon_error:
  assumes "loadCart e req d = Inr cartItems" and "Coupon req \<noteq> []"
    and "err = CouponInvalid \<or> err = CouponAlreadyUsed"
  shows "(transactionBody e req d = Inl err) =
         (processCoupon e d (UserID req) (Coupon req) cartItems = Inl err)"
  using assms
  by (auto simp: transactionBody_def
      dest: reserveInventory_errors persistOrder_errors
      split: sum.splits prod.splits)

subsection \<open>What the request sees of the transaction\<close>

lemma postCommit_trace:
  "trace (postCommitRedisOps e u oid amt w) =
     trace w @ Redis_Keys u #
       (if fault e (Redis_Keys u) = None \<and> summaries (rd w) u \<noteq> [] then [Redis_DelKeys u] else [])
       @ [Redis_ZIncrBy u, Redis_XAdd u]"
  by (simp add: postCommitRedisOps_def attempt_def Let_def split: option.splits)

lemma exec_trace:
  assumes "executeCheckoutTransaction e req w = (res, w')"
  shows "\<exists>t. trace w' = trace w @ Tx_Begin # t
       \<and> set t \<subseteq> {Tx_Commit, Tx_Rollback, Redis_Keys (UserID req), Redis_DelKeys (UserID req),
                    Redis_ZIncrBy (UserID req), Redis_XAdd (UserID req)}"
  using assms
  by (auto simp: executeCheckoutTransaction_def Let_def postCommit_trace
      split: option.splits sum.splits prod.splits)

lemma loadCart_errors:
  assumes "loadCart e req d = Inl err"
  shows "err = CartInvalid \<or> err = CartEmpty \<or> (\<exists>m. err = Backend m)"
proof -
  have scan: "scanRows e n rows = Inl err' \<Longrightarrow> \<exists>m. err' = Backend m" for n rows err'
    by (induction rows arbitrary: n) (auto split: option.splits sum.splits)
  show ?thesis
    using assms
    by (auto simp: loadCart_def dest: scan split: option.splits sum.splits if_splits)
qed

lemma processCoupon_errors:
  assumes "processCoupon e d u c cartItems = Inl err"
  shows "err = CouponInvalid \<or> err = CouponAlreadyUsed \<or> (\<exists>m. err = Backend m)"
  using assms
  by (auto simp: processCoupon_def Let_def split: option.splits if_splits)

lemma transactionBody_errors:
  assumes "transactionBody e req d = Inl err"
  shows "err \<noteq> RateLimited \<and> err \<noteq> LockDenied"
  using assms
  by (auto simp: transactionBody_def
      dest: loadCart_errors processCoupon_errors reserveInventory_errors persistOrder_errors
      split: sum.splits prod.splits if_splits)

lemma exec_errors:
  assumes "executeCheckoutTransaction e req w = (Inl err, w')"
  shows "err \<noteq> RateLimited \<and> err \<noteq> LockDenied"
  using assms
  by (auto simp: executeCheckoutTransaction_def Let_def dest: transactionBody_errors
      split: option.splits sum.splits prod.splits)

lemma exec_one_order:
  assumes "executeCheckoutTransaction e req w = (Inr resp, w')"
  shows "orders (db w') = orders (db w) @ [last (orders (db w'))]"
proof -
  from exec_success [OF assms] obtain oid tot where
    "transactionBody e req (db w) = Inr (oid, tot, db w')" by blast
  from transactionBody_order [OF this] show ?thesis by auto
qed

text \<open>All that the request needs to know about the transaction.\<close>

lemma exec_facts:
  assumes "executeCheckoutTransaction e req w = (res, w')"
  shows "idem (rd w') = idem (rd w) \<and> idem_ttl (rd w') = idem_ttl (rd w)
    \<and> rate (rd w') = rate (rd w) \<and> rate_ttl (rd w') = rate_ttl (rd w)
    \<and> locks (rd w') = locks (rd w)
    \<and> (\<exists>t. trace w' = trace w @ Tx_Begin # t
          \<and> set t \<subseteq> {Tx_Commit, Tx_Rollback, Redis_Keys (UserID req),
                       Redis_DelKeys (UserID req), Redis_ZIncrBy (UserID req),
                       Redis_XAdd (UserID req)})
    \<and> res \<noteq> Inl RateLimited \<and> res \<noteq> Inl LockDenied
    \<and> (isl res \<longrightarrow> db w' = db w)
    \<and> (\<not> isl res \<longrightarrow> orders (db w') = orders (db w) @ [last (orders (db w'))])"
proof (cases res)
  case (Inl err)
  with assms exec_frame [OF assms] exec_trace [OF assms] exec_errors [of e req w err w']
    exec_failure [of e req w err w']
  show ?thesis by auto
next
  case (Inr resp)
  with assms exec_frame [OF assms] exec_trace [OF assms] exec_one_order [of e req w resp w']
  show ?thesis by auto
qed

subsection \<open>The request: idempotency, rate limit and lock\<close>

lemma rdb_SetNX_failed:
  "fault e (Redis_SetNX u s) = Some m \<Longrightarrow>
     rdb_SetNX e u s w = (Inl (Backend m), attempt (Redis_SetNX u s) w)"
  by (simp add: rdb_SetNX_def Let_def)

lemma rdb_SetNX_held:
  "fault e (Redis_SetNX u s) = None \<Longrightarrow> locks (rd w) u = Some held \<Longrightarrow>
     rdb_SetNX e u s w = (Inr False, attempt (Redis_SetNX u s) w)"
  by (simp add: rdb_SetNX_def Let_def)

lemma rdb_SetNX_taken:
  "fault e (Redis_SetNX u s) = None \<Longrightarrow> locks (rd w) u = None \<Longrightarrow>
     rdb_SetNX e u s w =
       (Inr True, w\<lparr>rd := (rd w)\<lparr>locks := (locks (rd w))(u \<mapsto> s)\<rparr>,
                   trace := trace w @ [Redis_SetNX u s]\<rparr>)"
  by (simp add: rdb_SetNX_def attempt_def Let_def)

lemma rdb_Del_simps [simp]:
  "db (rdb_Del e u w) = db w"
  "trace (rdb_Del e u w) = trace w @ [Redis_Del u]"
  "idem (rd (rdb_Del e u w)) = idem (rd w)"
  "idem_ttl (rd (rdb_Del e u w)) = idem_ttl (rd w)"
  "rate (rd (rdb_Del e u w)) = rate (rd w)"
  "rate_ttl (rd (rdb_Del e u w)) = rate_ttl (rd w)"
  "locks (rd (rdb_Del e u w)) =
     (if fault e (Redis_Del u) = None then (locks (rd w))(u := None) else locks (rd w))"
  by (simp_all add: rdb_Del_def attempt_def Let_def split: option.splits)

lemma rdb_SetEx_simps [simp]:
  "db (rdb_SetEx e r resp s w) = db w"
  "trace (rdb_SetEx e r resp s w) = trace w @ [Redis_SetEx r s]"
  "idem (rd (rdb_SetEx e r resp s w)) =
     (if fault e (Redis_SetEx r s) = None then (idem (rd w))(r \<mapsto> resp) else idem (rd w))"
  "rate (rd (rdb_SetEx e r resp s w)) = rate (rd w)"
  "rate_ttl (rd (rdb_SetEx e r resp s w)) = rate_ttl (rd w)"
  "locks (rd (rdb_SetEx e r resp s w)) = locks (rd w)"
  by (simp_all add: rdb_SetEx_def attempt_def Let_def split: option.splits)

text \<open>The four ways through steps 2 to 5.\<close>

lemma checkoutUnderLock_cases:
  assumes "checkoutUnderLock e req w = (res, w')"
  obtains
    (setnx_failed) m where "fault e (Redis_SetNX (UserID req) 5) = Some m"
      "res = Inl (Backend m)" "w' = attempt (Redis_SetNX (UserID req) 5) w"
  | (denied) held where "fault e (Redis_SetNX (UserID req) 5) = None"
      "locks (rd w) (UserID req) = Some held"
      "res = Inl LockDenied" "w' = attempt (Redis_SetNX (UserID req) 5) w"
  | (aborted) err w4 where "fault e (Redis_SetNX (UserID req) 5) = None"
      "locks (rd w) (UserID req) = None"
      "executeCheckoutTransaction e req
         (w\<lparr>rd := (rd w)\<lparr>locks := (locks (rd w))(UserID req \<mapsto> 5)\<rparr>,
            trace := trace w @ [Redis_SetNX (UserID req) 5]\<rparr>) = (Inl err, w4)"
      "res = Inl err" "w' = rdb_Del e (UserID req) w4"
  | (committed) resp w4 where "fault e (Redis_SetNX (UserID req) 5) = None"
      "locks (rd w) (UserID req) = None"
      "executeCheckoutTransaction e req
         (w\<lparr>rd := (rd w)\<lparr>locks := (locks (rd w))(UserID req \<mapsto> 5)\<rparr>,
            trace := trace w @ [Redis_SetNX (UserID req) 5]\<rparr>) = (Inr resp, w4)"
      "res = Inr resp"
      "w' = rdb_Del e (UserID req) (rdb_SetEx e (PaymentRef req) resp 600 w4)"
proof (cases "fault e (Redis_SetNX (UserID req) 5)")
  case (Some m)
  with assms setnx_failed show ?thesis
    by (auto simp: checkoutUnderLock_def rdb_SetNX_failed)
next
  case None
  show ?thesis
  proof (cases "locks (rd w) (UserID req)")
    case (Some held)
    with assms None denied show ?thesis
      by (auto simp: checkoutUnderLock_def rdb_SetNX_held)
  next
    case free: None
    let ?w3 = "w\<lparr>rd := (rd w)\<lparr>locks := (locks (rd w))(UserID req \<mapsto> 5)\<rparr>,
                 trace := trace w @ [Redis_SetNX (UserID req) 5]\<rparr>"
    obtain r w4 where tx: "executeCheckoutTransaction e req ?w3 = (r, w4)"
      by (cases "executeCheckoutTransaction e req ?w3")
    show ?thesis
    proof (cases r)
      case (Inl err)
      with assms None free tx aborted show ?thesis
        by (auto simp: checkoutUnderLock_def rdb_SetNX_taken)
    next
      case (Inr resp)
      with assms None free tx committed show ?thesis
        by (auto simp: checkoutUnderLock_def rdb_SetNX_taken)
    qed
  qed
qed


lemma checkoutUnderLock_failure:
  assumes "checkoutUnderLock e req w = (Inl err, w')"
  shows "db w' = db w \<and> idem (rd w') = idem (rd w)
    \<and> (\<exists>t. trace w' = trace w @ t \<and> (\<forall>r s. Redis_SetEx r s \<notin> set t))"
  using assms
proof (cases rule: checkoutUnderLock_cases)
  case (setnx_failed m)
  then show ?thesis by simp
next
  case (denied held)
  then show ?thesis by simp
next
  case (aborted err' w4)
  from exec_facts [OF aborted(3)] aborted(4,5) show ?thesis
    by auto
next
  case (committed resp w4)
  then show ?thesis by simp
qed

lemma checkoutUnderLock_release:
  assumes run: "checkoutUnderLock e req w = (res, w')"
    and free: "fault e (Redis_SetNX (UserID req) 5) = None" "locks (rd w) (UserID req) = None"
  shows "last (trace w') = Redis_Del (UserID req)
    \<and> (fault e (Redis_Del (UserID req)) = None \<longrightarrow> locks (rd w') (UserID req) = None)
    \<and> (\<forall>resp. res = Inr resp \<longrightarrow>
          (\<exists>t. trace w' = trace w @ t @
                  [Redis_SetEx (PaymentRef req) 600, Redis_Del (UserID req)])
          \<and> (fault e (Redis_SetEx (PaymentRef req) 600) = None
               \<longrightarrow> idem (rd w') (PaymentRef req) = Some resp))"
  using run
proof (cases rule: checkoutUnderLock_cases)
  case (setnx_failed m)
  with free show ?thesis by simp
next
  case (denied held)
  with free show ?thesis by simp
next
  case (aborted err w4)
  then show ?thesis by simp
next
  case (committed resp w4)
  from exec_facts [OF committed(3)] obtain t where
    "trace w4 = trace w @ Redis_SetNX (UserID req) 5 # Tx_Begin # t"
    by auto
  with committed(4,5) show ?thesis by simp
qed

lemma checkoutUnderLock_success:
  assumes "checkoutUnderLock e req w = (Inr resp, w')"
  shows "orders (db w') = orders (db w) @ [last (orders (db w'))]
    \<and> (fault e (Redis_SetEx (PaymentRef req) 600) = None
         \<longrightarrow> idem (rd w') (PaymentRef req) = Some resp)"
  using assms
proof (cases rule: checkoutUnderLock_cases)
  case (committed resp' w4)
  from exec_facts [OF committed(3)] committed(4,5) show ?thesis by simp
qed simp_all

text \<open>Steps 0 and 1: how the request reaches the lock.\<close>

lemma processCheckout_hit:
  assumes "fault e (Redis_Get (PaymentRef req)) = None"
    and "idem (rd w) (PaymentRef req) = Some stored"
  shows "processCheckout e req w = (Inr stored, w\<lparr>trace := trace w @ [Redis_Get (PaymentRef req)]\<rparr>)"
  using assms by (simp add: processCheckout_def rdb_Get_def attempt_def)

lemma processCheckout_cases:
  assumes run: "processCheckout e req w = (res, w')"
  obtains
    (hit) stored where "fault e (Redis_Get (PaymentRef req)) = None"
      "idem (rd w) (PaymentRef req) = Some stored"
      "res = Inr stored" "w' = w\<lparr>trace := trace w @ [Redis_Get (PaymentRef req)]\<rparr>"
  | (incr_failed) m where
      "fault e (Redis_Incr (UserID req) (go_quot (now_unix e) 60)) = Some m"
      "res = Inl (Backend m)"
      "w' = w\<lparr>trace := trace w @ [Redis_Get (PaymentRef req),
                                    Redis_Incr (UserID req) (go_quot (now_unix e) 60)]\<rparr>"
  | (limited)
      "fault e (Redis_Get (PaymentRef req)) \<noteq> None \<or> idem (rd w) (PaymentRef req) = None"
      "fault e (Redis_Incr (UserID req) (go_quot (now_unix e) 60)) = None"
      "10 < (case rate (rd w) (UserID req, go_quot (now_unix e) 60) of None \<Rightarrow> 1 | Some c \<Rightarrow> c + 1)"
      "res = Inl RateLimited"
      "db w' = db w" "locks (rd w') = locks (rd w)" "idem (rd w') = idem (rd w)"
      "rate_ttl (rd w') = rate_ttl (rd w)"
      "rate (rd w') = (rate (rd w))((UserID req, go_quot (now_unix e) 60) \<mapsto>
         (case rate (rd w) (UserID req, go_quot (now_unix e) 60) of None \<Rightarrow> 1 | Some c \<Rightarrow> c + 1))"
      "trace w' = trace w @ [Redis_Get (PaymentRef req),
                             Redis_Incr (UserID req) (go_quot (now_unix e) 60)]"
      "idem_ttl (rd w') = idem_ttl (rd w)" "stream (rd w') = stream (rd w)"
      "leaderboard (rd w') = leaderboard (rd w)" "summaries (rd w') = summaries (rd w)"
  | (first) w2 where
      "fault e (Redis_Get (PaymentRef req)) \<noteq> None \<or> idem (rd w) (PaymentRef req) = None"
      "fault e (Redis_Incr (UserID req) (go_quot (now_unix e) 60)) = None"
      "rate (rd w) (UserID req, go_quot (now_unix e) 60) \<in> {None, Some 0}"
      "checkoutUnderLock e req w2 = (res, w')"
      "db w2 = db w" "locks (rd w2) = locks (rd w)" "idem (rd w2) = idem (rd w)"
      "rate_ttl (rd w2) =
         (if fault e (Redis_Expire (UserID req) (go_quot (now_unix e) 60) 90) = None
          then (rate_ttl (rd w))((UserID req, go_quot (now_unix e) 60) \<mapsto> 90)
          else rate_ttl (rd w))"
      "rate (rd w2) = (rate (rd w))((UserID req, go_quot (now_unix e) 60) \<mapsto> 1)"
      "trace w2 = trace w @ [Redis_Get (PaymentRef req),
                             Redis_Incr (UserID req) (go_quot (now_unix e) 60),
                             Redis_Expire (UserID req) (go_quot (now_unix e) 60) 90]"
      "idem_ttl (rd w2) = idem_ttl (rd w)" "stream (rd w2) = stream (rd w)"
      "leaderboard (rd w2) = leaderboard (rd w)" "summaries (rd w2) = summaries (rd w)"
  | (passed) w2 where
      "fault e (Redis_Get (PaymentRef req)) \<noteq> None \<or> idem (rd w) (PaymentRef req) = None"
      "fault e (Redis_Incr (UserID req) (go_quot (now_unix e) 60)) = None"
      "\<not> 10 < (case rate (rd w) (UserID req, go_quot (now_unix e) 60) of None \<Rightarrow> 1 | Some c \<Rightarrow> c + 1)"
      "(case rate (rd w) (UserID req, go_quot (now_unix e) 60) of None \<Rightarrow> 1 | Some c \<Rightarrow> c + 1) \<noteq> 1"
      "checkoutUnderLock e req w2 = (res, w')"
      "db w2 = db w" "locks (rd w2) = locks (rd w)" "idem (rd w2) = idem (rd w)"
      "rate_ttl (rd w2) = rate_ttl (rd w)"
      "rate (rd w2) = (rate (rd w))((UserID req, go_quot (now_unix e) 60) \<mapsto>
         (case rate (rd w) (UserID req, go_quot (now_unix e) 60) of None \<Rightarrow> 1 | Some c \<Rightarrow> c + 1))"
      "trace w2 = trace w @ [Redis_Get (PaymentRef req),
                             Redis_Incr (UserID req) (go_quot (now_unix e) 60)]"
      "idem_ttl (rd w2) = idem_ttl (rd w)" "stream (rd w2) = stream (rd w)"
      "leaderboard (rd w2) = leaderboard (rd w)" "summaries (rd w2) = summaries (rd w)"
proof -
  let ?k = "(UserID req, go_quot (now_unix e) 60)"
  let ?count = "case rate (rd w) ?k of None \<Rightarrow> 1 | Some c \<Rightarrow> c + (1::int)"
  let ?w0 = "attempt (Redis_Get (PaymentRef req)) w"
  show ?thesis
  proof (cases "fault e (Redis_Get (PaymentRef req)) = None
      \<and> idem (rd w) (PaymentRef req) \<noteq> None")
    case True
    then obtain stored where "idem (rd w) (PaymentRef req) = Some stored" by auto
    with True run hit [of stored] processCheckout_hit [of e req w stored] show ?thesis
      by simp
  next
    case False
    then have miss: "fault e (Redis_Get (PaymentRef req)) \<noteq> None
        \<or> idem (rd w) (PaymentRef req) = None" by auto
    then have get: "\<exists>m. rdb_Get e (PaymentRef req) w = (Inl m, ?w0)"
      by (auto simp: rdb_Get_def split: option.splits)
    show ?thesis
    proof (cases "fault e (Redis_Incr (UserID req) (go_quot (now_unix e) 60))")
      case (Some m)
      with run get show ?thesis
        by (intro incr_failed [of m])
          (auto simp: processCheckout_def rdb_Incr_def attempt_def Let_def)
    next
      case incr: None
      consider "10 < ?count" | "?count = 1" | "\<not> 10 < ?count" "?count \<noteq> 1"
        by linarith
      then show ?thesis
      proof cases
        case 1
        with run get incr miss show ?thesis
          by (intro limited)
            (auto simp: processCheckout_def rdb_Incr_def attempt_def Let_def)
      next
        case 2
        then have "rate (rd w) ?k \<in> {None, Some 0}"
          by (auto split: option.splits)
        with 2 run get incr miss show ?thesis
          by (intro first [of "rdb_Expire e ?k 90 (snd (rdb_Incr e ?k ?w0))"])
            (auto simp: processCheckout_def rdb_Incr_def rdb_Expire_def attempt_def Let_def
              split: option.splits)
      next
        case 3
        with run get incr miss show ?thesis
          by (intro passed [of "snd (rdb_Incr e ?k ?w0)"])
            (auto simp: processCheckout_def rdb_Incr_def attempt_def Let_def)
      qed
    qed
  qed
qed

lemma exec_failure_trace:
  assumes "executeCheckoutTransaction e req w = (Inl err, w')" and "fault e Tx_Begin = None"
  shows "trace w' = trace w @ [Tx_Begin, Tx_Rollback]
    \<or> (fault e Tx_Commit \<noteq> None \<and> trace w' = trace w @ [Tx_Begin, Tx_Commit, Tx_Rollback])"
  using assms
  by (auto simp: executeCheckoutTransaction_def Let_def
      split: option.splits sum.splits prod.splits)

lemma checkoutUnderLock_rollback:
  assumes "checkoutUnderLock e req w = (Inl err, w')" and "fault e Tx_Begin = None"
  shows "db w' = db w \<and> idem (rd w') = idem (rd w) \<and> idem_ttl (rd w') = idem_ttl (rd w)
    \<and> stream (rd w') = stream (rd w) \<and> leaderboard (rd w') = leaderboard (rd w)
    \<and> (\<exists>t. trace w' = trace w @ t
          \<and> (Tx_Begin \<in> set t \<longrightarrow>
                Tx_Rollback \<in> set t \<and> (Tx_Commit \<in> set t \<longrightarrow> fault e Tx_Commit \<noteq> None)))"
  using assms(1)
proof (cases rule: checkoutUnderLock_cases)
  case (setnx_failed m)
  then show ?thesis by simp
next
  case (denied held)
  then show ?thesis by simp
next
  case (aborted err' w4)
  from exec_failure [OF aborted(3)] exec_failure_trace [OF aborted(3) assms(2)] aborted(5)
  show ?thesis
    by (auto simp: rdb_Del_def attempt_def Let_def split: option.splits)
next
  case (committed resp w4)
  then show ?thesis by simp
qed

lemma checkoutUnderLock_stream:
  assumes "checkoutUnderLock e req w = (Inl err, w')"
  shows "stream (rd w') = stream (rd w)"
  using assms
proof (cases rule: checkoutUnderLock_cases)
  case (aborted err' w4)
  from exec_failure [OF aborted(3)] aborted(5) show ?thesis
    by (simp add: rdb_Del_def attempt_def Let_def split: option.splits)
qed simp_all

text \<open>The items of the request body are read by the handler only.\<close>

lemma persistOrder_ignores_items:
  "persistOrder e (req\<lparr>Items := xs\<rparr>) cartItems discount d = persistOrder e req cartItems discount d"
  by (simp add: persistOrder_def Let_def cong: option.case_cong sum.case_cong)

lemma transactionBody_ignores_items:
  "transactionBody e (req\<lparr>Items := xs\<rparr>) d = transactionBody e req d"
  by (simp add: transactionBody_def loadCart_def persistOrder_ignores_items
      cong: option.case_cong sum.case_cong prod.case_cong if_cong)

lemma exec_ignores_items:
  "executeCheckoutTransaction e (req\<lparr>Items := xs\<rparr>) w = executeCheckoutTransaction e req w"
  by (simp add: executeCheckoutTransaction_def transactionBody_ignores_items Let_def
      cong: option.case_cong sum.case_cong prod.case_cong)

lemma checkoutUnderLock_ignores_items:
  "checkoutUnderLock e (req\<lparr>Items := xs\<rparr>) w = checkoutUnderLock e req w"
  by (simp add: checkoutUnderLock_def exec_ignores_items
      cong: sum.case_cong prod.case_cong if_cong)

lemma processCheckout_ignores_items:
  "processCheckout e (req\<lparr>Items := xs\<rparr>) w = processCheckout e req w"
  by (simp add: processCheckout_def checkoutUnderLock_ignores_items Let_def
      cong: sum.case_cong prod.case_cong if_cong)

section \<open>The claims\<close>

subsection \<open>The order of a committed checkout\<close>

text \<open>
  C1 is about the \<^verbatim>\<open>float64\<close> amounts of the order row and of the response: the
  comparison \<^verbatim>\<open>subtotal > 100\<close> and the sums are taken in binary floating point, where a cart of
  three items at 33.20 and one at 0.40 has a subtotal just above 100. With the amounts as
  real numbers these equalities are not those of the program, so no theorem about the
  amounts is stated here. What does not depend on the arithmetic is used below: a committed
  transaction appends exactly one order row (\<open>exec_one_order\<close>).
\<close>

subsection \<open>Tax\<close>

text \<open>
  C2. The tax of a checkout is (subtotal - discount) * 0.08 rounded to two decimals. The Go
  code drops the third decimal instead of rounding: for a cart of one item at 9.99 and no
  coupon the exact tax is 0.7992, which rounds to 0.80 (the value the TypeScript service
  computes), and the Go handler stores 0.79 in the order row. On the scenario of the
  specification (49.50 after a 10 percent discount) both give 3.96.
\<close>

theorem go_tax_truncates:
  "computeTax (9.99 - 0) = 0.79
   \<and> real_of_int (round ((9.99 - 0) * 0.08 * 100 :: real)) / 100 = 0.80
   \<and> computeTax_ts (9.99 - 0) = 0.80
   \<and> map order_tax (orders (db (snd (processCheckout demo_env demo_request cheap_world)))) = [0.79]
   \<and> computeTax (55 - 5.50) = 3.96"
  by (simp add: run_defs computeTax_ts_def js_round_def round_def)

subsection \<open>Idempotent replay\<close>

text \<open>
  C3. A first request whose payment reference has no idempotency record, and which
  succeeds, creates exactly one order; when the record is written, a second request with
  the same payment reference, arriving in the world the first one left, gets the same
  response, and nothing but the lookup of the record happens: no call on the rate limiter
  or the lock, no transaction, and the tables and the cache are unchanged. In general,
  whenever the store holds a result for the payment reference, that result is returned as
  it is and only the lookup is attempted.
\<close>

theorem idempotent_replay:
  assumes first: "idem (rd w) (PaymentRef req) = None"
      "processCheckout e req w = (Inr resp, w1)"
      "fault e (Redis_SetEx (PaymentRef req) 600) = None"
    and second: "PaymentRef req' = PaymentRef req"
      "fault e' (Redis_Get (PaymentRef req')) = None"
  shows "orders (db w1) = orders (db w) @ [last (orders (db w1))]
         \<and> processCheckout e' req' w1 =
             (Inr resp, w1\<lparr>trace := trace w1 @ [Redis_Get (PaymentRef req')]\<rparr>)
         \<and> (\<forall>w0 stored. idem (rd w0) (PaymentRef req') = Some stored \<longrightarrow>
               processCheckout e' req' w0 =
                 (Inr stored, w0\<lparr>trace := trace w0 @ [Redis_Get (PaymentRef req')]\<rparr>))"
proof -
  have "orders (db w1) = orders (db w) @ [last (orders (db w1))]
      \<and> idem (rd w1) (PaymentRef req) = Some resp"
    using first(2)
  proof (cases rule: processCheckout_cases)
    case (hit stored)
    with first(1) show ?thesis by simp
  next
    case (first w2)
    from checkoutUnderLock_success [OF first(4)] first(5) \<open>fault e (Redis_SetEx (PaymentRef req) 600) = None\<close>
    show ?thesis by simp
  next
    case (passed w2)
    from checkoutUnderLock_success [OF passed(5)] passed(6) \<open>fault e (Redis_SetEx (PaymentRef req) 600) = None\<close>
    show ?thesis by simp
  qed simp_all
  then show ?thesis
    using second processCheckout_hit [of e' req'] by simp
qed

theorem idempotent_replay_witness:
  "fst (processCheckout demo_env demo_request demo_world) =
     Inr \<lparr>OrderID = ''o1'', Status = ''pending'', Total = 66.38\<rparr>
   \<and> fst (processCheckout (demo_env\<lparr>order_uuid := ''o2''\<rparr>) demo_request
        (snd (processCheckout demo_env demo_request demo_world))) =
     Inr \<lparr>OrderID = ''o1'', Status = ''pending'', Total = 66.38\<rparr>
   \<and> map order_id (orders (db (snd (processCheckout (demo_env\<lparr>order_uuid := ''o2''\<rparr>) demo_request
        (snd (processCheckout demo_env demo_request demo_world)))))) = [''o1'']"
proof -
  let ?resp = "\<lparr>OrderID = ''o1'', Status = ''pending'', Total = 66.38\<rparr>"
  let ?r = "processCheckout demo_env demo_request demo_world"
  let ?e' = "demo_env\<lparr>order_uuid := ''o2''\<rparr>"
  have res: "fst ?r = Inr ?resp"
    by (simp add: run_defs)
  then have run: "?r = (Inr ?resp, snd ?r)"
    by (metis prod.collapse)
  have ids: "map order_id (orders (db (snd ?r))) = [''o1'']"
    by (simp add: run_defs)
  have pre: "idem (rd demo_world) (PaymentRef demo_request) = None"
    "fault demo_env (Redis_SetEx (PaymentRef demo_request) 600) = None"
    "fault ?e' (Redis_Get (PaymentRef demo_request)) = None"
    by (simp_all add: demo_defs)
  have "processCheckout ?e' demo_request (snd ?r) =
      (Inr ?resp, (snd ?r)\<lparr>trace := trace (snd ?r) @ [Redis_Get (PaymentRef demo_request)]\<rparr>)"
    using idempotent_replay [OF pre(1) run pre(2) refl pre(3)] by blast
  with res ids show ?thesis by simp
qed

subsection \<open>Atomicity\<close>

text \<open>
  C4. When \<open>processCheckout\<close> fails, with a named error or with an error of a backend, the
  tables are what they were before the attempt: no order or order item is added, the cart
  keeps its status, and the coupons, their usage rows, the inventory and the events are
  unchanged; the idempotency store and the event stream are unchanged as well. A
  transaction that was begun is rolled back, and if its commit was attempted, the commit
  failed.
\<close>

theorem failed_checkout_writes_nothing:
  assumes "processCheckout e req w = (Inl err, w')"
  shows "db w' = db w
         \<and> orders (db w') = orders (db w) \<and> order_items (db w') = order_items (db w)
         \<and> carts (db w') (CartID req) = carts (db w) (CartID req)
         \<and> coupons (db w') = coupons (db w)
         \<and> user_coupon_usage (db w') = user_coupon_usage (db w)
         \<and> inventory (db w') = inventory (db w) \<and> events (db w') = events (db w)
         \<and> idem (rd w') = idem (rd w) \<and> idem_ttl (rd w') = idem_ttl (rd w)
         \<and> stream (rd w') = stream (rd w)
         \<and> (fault e Tx_Begin = None \<and> Tx_Begin \<in> set (calls_since w w') \<longrightarrow>
               Tx_Rollback \<in> set (calls_since w w')
               \<and> (Tx_Commit \<in> set (calls_since w w') \<longrightarrow> fault e Tx_Commit \<noteq> None))"
proof -
  have tables: "db w' = db w \<and> idem (rd w') = idem (rd w) \<and> idem_ttl (rd w') = idem_ttl (rd w)"
    by (rule processCheckout_failure [OF assms])
  have rest: "stream (rd w') = stream (rd w)
         \<and> (fault e Tx_Begin = None \<and> Tx_Begin \<in> set (calls_since w w') \<longrightarrow>
               Tx_Rollback \<in> set (calls_since w w')
               \<and> (Tx_Commit \<in> set (calls_since w w') \<longrightarrow> fault e Tx_Commit \<noteq> None))"
    using assms
  proof (cases rule: processCheckout_cases)
    case (hit stored)
    then show ?thesis by simp
  next
    case (incr_failed m)
    then show ?thesis by (simp add: calls_since_def)
  next
    case limited
    then show ?thesis by (simp add: calls_since_def)
  next
    case (first w2)
    show ?thesis
    proof (cases "fault e Tx_Begin")
      case None
      from checkoutUnderLock_rollback [OF first(4) None] obtain t where
        "stream (rd w') = stream (rd w2)" "trace w' = trace w2 @ t"
        "Tx_Begin \<in> set t \<longrightarrow>
           Tx_Rollback \<in> set t \<and> (Tx_Commit \<in> set t \<longrightarrow> fault e Tx_Commit \<noteq> None)"
        by blast
      with first(10,12) show ?thesis by (simp add: calls_since_def)
    next
      case (Some m)
      from checkoutUnderLock_stream [OF first(4)] first(12) show ?thesis
        using Some by simp
    qed
  next
    case (passed w2)
    show ?thesis
    proof (cases "fault e Tx_Begin")
      case None
      from checkoutUnderLock_rollback [OF passed(5) None] obtain t where
        "stream (rd w') = stream (rd w2)" "trace w' = trace w2 @ t"
        "Tx_Begin \<in> set t \<longrightarrow>
           Tx_Rollback \<in> set t \<and> (Tx_Commit \<in> set t \<longrightarrow> fault e Tx_Commit \<noteq> None)"
        by blast
      with passed(11,13) show ?thesis by (simp add: calls_since_def)
    next
      case (Some m)
      from checkoutUnderLock_stream [OF passed(5)] passed(13) show ?thesis
        using Some by simp
    qed
  qed
  from tables rest show ?thesis by simp
qed

theorem failed_checkout_writes_nothing_witness:
  "fst (processCheckout demo_env demo_request sold_out_world) = Inl InsufficientInventory
   \<and> orders (db (snd (processCheckout demo_env demo_request sold_out_world))) = []
   \<and> map_option cart_status (carts (db (snd (processCheckout demo_env demo_request sold_out_world))) ''c1'')
       = Some ''open''
   \<and> inventory (db (snd (processCheckout demo_env demo_request sold_out_world)))
       (''A'', us_east_warehouse) = Some \<lparr>available_qty = 10, reserved_qty = 0\<rparr>
   \<and> Tx_Rollback \<in> set (calls_since sold_out_world
         (snd (processCheckout demo_env demo_request sold_out_world)))"
proof -
  let ?r = "processCheckout demo_env demo_request sold_out_world"
  have res: "fst ?r = Inl InsufficientInventory"
    by (simp add: run_defs)
  then have run: "?r = (Inl InsufficientInventory, snd ?r)"
    by (metis prod.collapse)
  have begun: "fault demo_env Tx_Begin = None
      \<and> Tx_Begin \<in> set (calls_since sold_out_world (snd ?r))"
    by (simp add: run_defs)
  have "db (snd ?r) = db sold_out_world
      \<and> Tx_Rollback \<in> set (calls_since sold_out_world (snd ?r))"
    using failed_checkout_writes_nothing [OF run] begun by simp
  with res show ?thesis
    by (simp add: demo_defs)
qed

subsection \<open>Coupon validation and redemption\<close>

text \<open>
  C5, as the code has it. When the four coupon statements do not fail at the backend, the
  coupon step fails with CouponInvalid exactly when the coupon row is missing, the clock
  is outside [starts_at, ends_at], or max_uses is set and used_count has reached it. It
  fails with CouponAlreadyUsed exactly when the coupon is valid in that sense and a usage
  row of the user with used_count at least 1 exists: the validity checks come first.
  Otherwise the usage row is set to 1 when absent and incremented when present (to 1 from a
  stored 0), the coupon's used_count grows by exactly 1, and the discount is
  subtotal * value / 100 for a percentage coupon and the value otherwise. For a request
  whose cart has been validated, the transaction fails with these two errors in exactly the
  same cases.
\<close>

theorem coupon_validation_and_redemption:
  assumes "fault e (Select_Coupon code) = None" and "fault e (Select_Usage user code) = None"
    and "fault e (Upsert_Usage user code) = None" and "fault e (Update_Coupon code) = None"
  shows "let result = processCoupon e d user code cartItems;
             invalid = (case coupons d code of
                          None \<Rightarrow> True
                        | Some c \<Rightarrow> now_coupon e < StartsAt c \<or> EndsAt c < now_coupon e
                            \<or> (case MaxUses c of None \<Rightarrow> False | Some m \<Rightarrow> m \<le> UsedCount c));
             used = (case user_coupon_usage d (user, code) of
                       None \<Rightarrow> False
                     | Some n \<Rightarrow> 1 \<le> n)
         in (result = Inl CouponInvalid) = invalid
            \<and> (result = Inl CouponAlreadyUsed) = (\<not> invalid \<and> used)
            \<and> (\<not> invalid \<and> \<not> used \<longrightarrow>
                 (\<exists>c discount d'. coupons d code = Some c \<and> result = Inr (discount, d')
                    \<and> discount = (if Type c = ''percentage''
                                   then cartSubtotal cartItems * Value c / 100 else Value c)
                    \<and> coupons d' = (coupons d)(code \<mapsto> c\<lparr>UsedCount := UsedCount c + 1\<rparr>)
                    \<and> user_coupon_usage d' = (user_coupon_usage d)((user, code) \<mapsto>
                         (case user_coupon_usage d (user, code) of
                            None \<Rightarrow> 1
                          | Some n \<Rightarrow> n + 1))
                    \<and> (user_coupon_usage d (user, code) \<in> {None, Some 0}
                         \<longrightarrow> user_coupon_usage d' (user, code) = Some 1)))
            \<and> (loadCart e req d = Inr cartItems \<and> UserID req = user \<and> Coupon req = code
                  \<and> code \<noteq> [] \<longrightarrow>
                 (transactionBody e req d = Inl CouponInvalid) = invalid
                 \<and> (transactionBody e req d = Inl CouponAlreadyUsed) = (\<not> invalid \<and> used))"
proof -
  have step: "loadCart e req d = Inr cartItems \<and> UserID req = user \<and> Coupon req = code
      \<and> code \<noteq> [] \<Longrightarrow>
      (transactionBody e req d = Inl CouponInvalid) =
        (processCoupon e d user code cartItems = Inl CouponInvalid)
      \<and> (transactionBody e req d = Inl CouponAlreadyUsed) =
        (processCoupon e d user code cartItems = Inl CouponAlreadyUsed)"
    using transactionBody_coupon_error [of e req d cartItems] by auto
  have main: "let result = processCoupon e d user code cartItems;
             invalid = (case coupons d code of
                          None \<Rightarrow> True
                        | Some c \<Rightarrow> now_coupon e < StartsAt c \<or> EndsAt c < now_coupon e
                            \<or> (case MaxUses c of None \<Rightarrow> False | Some m \<Rightarrow> m \<le> UsedCount c));
             used = (case user_coupon_usage d (user, code) of
                       None \<Rightarrow> False
                     | Some n \<Rightarrow> 1 \<le> n)
         in (result = Inl CouponInvalid) = invalid
            \<and> (result = Inl CouponAlreadyUsed) = (\<not> invalid \<and> used)
            \<and> (\<not> invalid \<and> \<not> used \<longrightarrow>
                 (\<exists>c discount d'. coupons d code = Some c \<and> result = Inr (discount, d')
                    \<and> discount = (if Type c = ''percentage''
                                   then cartSubtotal cartItems * Value c / 100 else Value c)
                    \<and> coupons d' = (coupons d)(code \<mapsto> c\<lparr>UsedCount := UsedCount c + 1\<rparr>)
                    \<and> user_coupon_usage d' = (user_coupon_usage d)((user, code) \<mapsto>
                         (case user_coupon_usage d (user, code) of
                            None \<Rightarrow> 1
                          | Some n \<Rightarrow> n + 1))
                    \<and> (user_coupon_usage d (user, code) \<in> {None, Some 0}
                         \<longrightarrow> user_coupon_usage d' (user, code) = Some 1)))"
    unfolding processCoupon_result [OF assms] Let_def
    by (auto split: option.splits)
  show ?thesis
    using main step unfolding Let_def by blast
qed

theorem coupon_validation_and_redemption_witness:
  "map_prod id (\<lambda>d. (user_coupon_usage d (''u1'', ''TEN''), map_option UsedCount (coupons d ''TEN'')))
     (projr (processCoupon demo_env demo_db ''u1'' ''TEN'' (joinCartItems demo_db ''c1'')))
     = (5.50, Some 1, Some 1)
   \<and> transactionBody demo_env (demo_request\<lparr>Coupon := ''TEN''\<rparr>) expired_db = Inl CouponInvalid"
proof -
  let ?items = "joinCartItems demo_db ''c1''"
  let ?req = "demo_request\<lparr>Coupon := ''TEN''\<rparr>"
  have nofault: "fault demo_env (Select_Coupon ''TEN'') = None"
    "fault demo_env (Select_Usage ''u1'' ''TEN'') = None"
    "fault demo_env (Upsert_Usage ''u1'' ''TEN'') = None"
    "fault demo_env (Update_Coupon ''TEN'') = None"
    by (simp_all add: demo_defs)
  have load: "loadCart demo_env ?req expired_db = Inr ?items"
    by (simp add: demo_defs expired_db_def tx_defs)
  have "transactionBody demo_env ?req expired_db = Inl CouponInvalid"
    using coupon_validation_and_redemption [OF nofault, of expired_db ?items ?req] load
    by (simp add: Let_def) (simp add: demo_defs expired_db_def)
  moreover have "\<exists>d'. processCoupon demo_env demo_db ''u1'' ''TEN'' ?items = Inr (5.50, d')
      \<and> user_coupon_usage d' (''u1'', ''TEN'') = Some 1
      \<and> map_option UsedCount (coupons d' ''TEN'') = Some 1"
    using coupon_validation_and_redemption [OF nofault, of demo_db ?items]
    by (simp add: Let_def) (auto simp: demo_defs tx_defs pricing_defs)
  ultimately show ?thesis by auto
qed

text \<open>
  C5, as stated, makes CouponAlreadyUsed depend on the usage row alone. For a coupon that
  has ended, with a usage row of 1 for the user, the code answers CouponInvalid.
\<close>

theorem coupon_already_used_counterexample:
  "user_coupon_usage expired_db (''u1'', ''TEN'') = Some 1
   \<and> processCoupon demo_env expired_db ''u1'' ''TEN'' (joinCartItems expired_db ''c1'')
       = Inl CouponInvalid
   \<and> processCoupon demo_env expired_db ''u1'' ''TEN'' (joinCartItems expired_db ''c1'')
       \<noteq> Inl CouponAlreadyUsed
   \<and> fst (processCheckout demo_env (demo_request\<lparr>Coupon := ''TEN''\<rparr>)
            (demo_world\<lparr>db := expired_db\<rparr>)) = Inl CouponInvalid"
  by (simp add: run_defs expired_db_def)

subsection \<open>Inventory reservation\<close>

text \<open>
  C6. The reservation fails with InsufficientInventory if and only if the inventory row is
  absent or available - reserved < qty. The Go loop body answers InsufficientInventory for
  every error of the \<^verbatim>\<open>SELECT\<close>, also when the row is there and in stock: with the row
  of product \<open>A\<close> at available 10 and reserved 0 and a cart item of 2, a \<^verbatim>\<open>SELECT\<close> that
  fails with a deadlock makes the body return InsufficientInventory, and the handler
  answers 409 with that message. Without the failure the same item is reserved.
\<close>

theorem inventory_select_error_reported_as_insufficient:
  "inventory demo_db (''A'', us_east_warehouse) = Some \<lparr>available_qty = 10, reserved_qty = 0\<rparr>
   \<and> \<not> (10 - 0 < (2::int))
   \<and> reserveItem deadlock_env us_east_warehouse
         \<lparr>ProductID = ''A'', Qty = 2, UnitPrice = 20, ItemStatus = ''active''\<rparr> demo_db
       = Inl InsufficientInventory
   \<and> reserveItem demo_env us_east_warehouse
         \<lparr>ProductID = ''A'', Qty = 2, UnitPrice = 20, ItemStatus = ''active''\<rparr> demo_db
       = Inr (demo_db\<lparr>inventory :=
           [(''A'', us_east_warehouse) \<mapsto> \<lparr>available_qty = 10, reserved_qty = 2\<rparr>,
            (''B'', us_east_warehouse) \<mapsto> \<lparr>available_qty = 5, reserved_qty = 4\<rparr>]\<rparr>)
   \<and> fst (Checkout deadlock_env (Inr demo_request) demo_world) =
       \<lparr>status = 409, payload = ErrorJSON ''Insufficient inventory''\<rparr>
   \<and> status (fst (Checkout demo_env (Inr demo_request) demo_world)) = 200"
  by (simp add: run_defs fun_upd_twist)

text \<open>
  The rest of the reservation, when the two statements of an item do not fail at the
  backend. It takes the cart items one at a time, in the order of the list: the run on a
  list is the run on its first part followed by the run on the rest, and the run on one item
  is the loop body. The body then fails with InsufficientInventory exactly when the row of
  the product at the warehouse is absent or available - reserved < qty, and otherwise adds
  qty to reserved_qty of that row and changes nothing else. So a successful reservation of
  items with qty at least 1 keeps reserved_qty within available_qty on every row, and
  leaves every available_qty as it was.
\<close>

theorem inventory_reservation:
  "reserveInventory e [item] wh d = reserveItem e wh item d
   \<and> reserveInventory e (xs @ ys) wh d =
       (case reserveInventory e xs wh d of
          Inl err \<Rightarrow> Inl err
        | Inr d1 \<Rightarrow> reserveInventory e ys wh d1)
   \<and> (fault e (Select_Inventory (ProductID item) wh) = None
        \<and> fault e (Update_Inventory (ProductID item) wh) = None \<longrightarrow>
        reserveItem e wh item d =
          (case inventory d (ProductID item, wh) of
             None \<Rightarrow> Inl InsufficientInventory
           | Some row \<Rightarrow>
               if available_qty row - reserved_qty row < Qty item
               then Inl InsufficientInventory
               else Inr (d\<lparr>inventory := (inventory d)((ProductID item, wh) \<mapsto>
                            row\<lparr>reserved_qty := reserved_qty row + Qty item\<rparr>)\<rparr>)))
   \<and> (reserveInventory e cartItems wh d = Inr d'
        \<and> (\<forall>k row. inventory d k = Some row \<longrightarrow> reserved_qty row \<le> available_qty row)
        \<and> (\<forall>item\<in>set cartItems. 1 \<le> Qty item) \<longrightarrow>
        (\<forall>k row. inventory d' k = Some row \<longrightarrow> reserved_qty row \<le> available_qty row)
        \<and> (\<forall>k. only_reserves (inventory d k) (inventory d' k)))"
proof (intro conjI impI)
  show "reserveInventory e [item] wh d = reserveItem e wh item d"
    by (simp split: sum.splits)
next
  show "reserveInventory e (xs @ ys) wh d =
       (case reserveInventory e xs wh d of
          Inl err \<Rightarrow> Inl err
        | Inr d1 \<Rightarrow> reserveInventory e ys wh d1)"
    by (rule reserveInventory_append)
next
  assume "fault e (Select_Inventory (ProductID item) wh) = None
        \<and> fault e (Update_Inventory (ProductID item) wh) = None"
  then show "reserveItem e wh item d =
          (case inventory d (ProductID item, wh) of
             None \<Rightarrow> Inl InsufficientInventory
           | Some row \<Rightarrow>
               if available_qty row - reserved_qty row < Qty item
               then Inl InsufficientInventory
               else Inr (d\<lparr>inventory := (inventory d)((ProductID item, wh) \<mapsto>
                            row\<lparr>reserved_qty := reserved_qty row + Qty item\<rparr>)\<rparr>))"
    by (simp add: reserveItem_result)
next
  assume h: "reserveInventory e cartItems wh d = Inr d'
        \<and> (\<forall>k row. inventory d k = Some row \<longrightarrow> reserved_qty row \<le> available_qty row)
        \<and> (\<forall>item\<in>set cartItems. 1 \<le> Qty item)"
  then show "\<forall>k row. inventory d' k = Some row \<longrightarrow> reserved_qty row \<le> available_qty row"
    using reserveInventory_invariant by blast
  from h show "\<forall>k. only_reserves (inventory d k) (inventory d' k)"
    using reserveInventory_only_reserves by blast
qed

theorem inventory_reservation_witness:
  "reserveInventory demo_env (joinCartItems demo_db ''c1'') us_east_warehouse demo_db =
     Inr (demo_db\<lparr>inventory :=
       [(''A'', us_east_warehouse) \<mapsto> \<lparr>available_qty = 10, reserved_qty = 2\<rparr>,
        (''B'', us_east_warehouse) \<mapsto> \<lparr>available_qty = 5, reserved_qty = 5\<rparr>]\<rparr>)
   \<and> reserveInventory demo_env (joinCartItems demo_db ''c1'') us_east_warehouse (db sold_out_world) =
     Inl InsufficientInventory"
proof -
  let ?items = "joinCartItems demo_db ''c1''"
  let ?item = "\<lparr>ProductID = ''B'', Qty = 1, UnitPrice = 15, ItemStatus = ''active''\<rparr>"
  let ?d' = "demo_db\<lparr>inventory :=
       [(''A'', us_east_warehouse) \<mapsto> \<lparr>available_qty = 10, reserved_qty = 2\<rparr>,
        (''B'', us_east_warehouse) \<mapsto> \<lparr>available_qty = 5, reserved_qty = 5\<rparr>]\<rparr>"
  have ok: "reserveInventory demo_env ?items us_east_warehouse demo_db = Inr ?d'"
    by (simp add: demo_defs tx_defs fun_upd_twist)
  have nofault: "fault demo_env (Select_Inventory (ProductID ?item) us_east_warehouse) = None
      \<and> fault demo_env (Update_Inventory (ProductID ?item) us_east_warehouse) = None"
    by (simp add: demo_defs)
  have inv: "\<forall>k row. inventory demo_db k = Some row \<longrightarrow> reserved_qty row \<le> available_qty row"
    by (auto simp: demo_defs split: if_splits)
  have qty: "\<forall>item\<in>set ?items. 1 \<le> Qty item"
    by (simp add: demo_defs tx_defs)
  have step: "reserveItem demo_env us_east_warehouse ?item (db sold_out_world) =
      Inl InsufficientInventory"
    using inventory_reservation [of demo_env ?item us_east_warehouse "db sold_out_world"]
      nofault by (simp add: demo_defs)
  have "\<forall>k row. inventory ?d' k = Some row \<longrightarrow> reserved_qty row \<le> available_qty row"
    using inventory_reservation [of demo_env _ us_east_warehouse demo_db _ _ ?items ?d']
      ok inv qty by blast
  show ?thesis
    using ok step by (simp add: demo_defs tx_defs)
qed

subsection \<open>Rate limiter\<close>



subsection \<open>Lock release and the idempotency record\<close>

text \<open>
  C8. Once the lock is acquired (the \<^verbatim>\<open>SetNX\<close> is attempted, does not fail and finds the
  key absent), the last call of \<open>processCheckout\<close> is the \<^verbatim>\<open>Del\<close> of the lock key, on
  success and on every failure, and the key is gone when that \<^verbatim>\<open>Del\<close> does not fail. The
  idempotency record is written on no failing path: a failing run attempts no \<^verbatim>\<open>SetEx\<close>
  and leaves the store as it was. On the success path the \<^verbatim>\<open>SetEx\<close> of the payment
  reference is the call right before the \<^verbatim>\<open>Del\<close> of the lock, and it stores the response.
\<close>

theorem lock_release_and_idempotency_write:
  assumes run: "processCheckout e req w = (res, w')"
  shows "(isl res \<longrightarrow>
            idem (rd w') = idem (rd w)
            \<and> (\<forall>s. Redis_SetEx (PaymentRef req) s \<notin> set (calls_since w w')))
         \<and> (Redis_SetNX (UserID req) 5 \<in> set (calls_since w w')
              \<and> fault e (Redis_SetNX (UserID req) 5) = None
              \<and> locks (rd w) (UserID req) = None \<longrightarrow>
            last (trace w') = Redis_Del (UserID req)
            \<and> (fault e (Redis_Del (UserID req)) = None \<longrightarrow> locks (rd w') (UserID req) = None)
            \<and> (\<forall>resp. res = Inr resp \<longrightarrow>
                  (\<exists>t. calls_since w w' =
                         t @ [Redis_SetEx (PaymentRef req) 600, Redis_Del (UserID req)])
                  \<and> (fault e (Redis_SetEx (PaymentRef req) 600) = None
                       \<longrightarrow> idem (rd w') (PaymentRef req) = Some resp)))"
  using run
proof (cases rule: processCheckout_cases)
  case (hit stored)
  then show ?thesis by (simp add: calls_since_def)
next
  case (incr_failed m)
  then show ?thesis by (simp add: calls_since_def)
next
  case limited
  then show ?thesis by (simp add: calls_since_def)
next
  case (first w2)
  have fail: "isl res \<longrightarrow> idem (rd w') = idem (rd w)
      \<and> (\<forall>s. Redis_SetEx (PaymentRef req) s \<notin> set (calls_since w w'))"
  proof
    assume "isl res"
    then obtain err where "res = Inl err" by (cases res) auto
    with checkoutUnderLock_failure [of e req w2 err w'] first(4) obtain t where
      "idem (rd w') = idem (rd w2)" "trace w' = trace w2 @ t"
      "\<forall>r s. Redis_SetEx r s \<notin> set t"
      by blast
    with first(7,10)
    show "idem (rd w') = idem (rd w)
      \<and> (\<forall>s. Redis_SetEx (PaymentRef req) s \<notin> set (calls_since w w'))"
      by (simp add: calls_since_def)
  qed
  have "fault e (Redis_SetNX (UserID req) 5) = None \<and> locks (rd w) (UserID req) = None \<longrightarrow>
            last (trace w') = Redis_Del (UserID req)
            \<and> (fault e (Redis_Del (UserID req)) = None \<longrightarrow> locks (rd w') (UserID req) = None)
            \<and> (\<forall>resp. res = Inr resp \<longrightarrow>
                  (\<exists>t. calls_since w w' =
                         t @ [Redis_SetEx (PaymentRef req) 600, Redis_Del (UserID req)])
                  \<and> (fault e (Redis_SetEx (PaymentRef req) 600) = None
                       \<longrightarrow> idem (rd w') (PaymentRef req) = Some resp))"
    using checkoutUnderLock_release [OF first(4)] first(6,10)
    by (auto simp: calls_since_def)
  with fail show ?thesis by blast
next
  case (passed w2)
  have fail: "isl res \<longrightarrow> idem (rd w') = idem (rd w)
      \<and> (\<forall>s. Redis_SetEx (PaymentRef req) s \<notin> set (calls_since w w'))"
  proof
    assume "isl res"
    then obtain err where "res = Inl err" by (cases res) auto
    with checkoutUnderLock_failure [of e req w2 err w'] passed(5) obtain t where
      "idem (rd w') = idem (rd w2)" "trace w' = trace w2 @ t"
      "\<forall>r s. Redis_SetEx r s \<notin> set t"
      by blast
    with passed(8,11)
    show "idem (rd w') = idem (rd w)
      \<and> (\<forall>s. Redis_SetEx (PaymentRef req) s \<notin> set (calls_since w w'))"
      by (simp add: calls_since_def)
  qed
  have "fault e (Redis_SetNX (UserID req) 5) = None \<and> locks (rd w) (UserID req) = None \<longrightarrow>
            last (trace w') = Redis_Del (UserID req)
            \<and> (fault e (Redis_Del (UserID req)) = None \<longrightarrow> locks (rd w') (UserID req) = None)
            \<and> (\<forall>resp. res = Inr resp \<longrightarrow>
                  (\<exists>t. calls_since w w' =
                         t @ [Redis_SetEx (PaymentRef req) 600, Redis_Del (UserID req)])
                  \<and> (fault e (Redis_SetEx (PaymentRef req) 600) = None
                       \<longrightarrow> idem (rd w') (PaymentRef req) = Some resp))"
    using checkoutUnderLock_release [OF passed(5)] passed(7,11)
    by (auto simp: calls_since_def)
  with fail show ?thesis by blast
qed

theorem lock_release_and_idempotency_write_witness:
  "calls_since demo_world (snd (processCheckout demo_env demo_request demo_world)) =
     [Redis_Get ''p1'', Redis_Incr ''u1'' 28333333, Redis_Expire ''u1'' 28333333 90,
      Redis_SetNX ''u1'' 5, Tx_Begin, Tx_Commit, Redis_Keys ''u1'', Redis_ZIncrBy ''u1'',
      Redis_XAdd ''u1'', Tx_Rollback, Redis_SetEx ''p1'' 600, Redis_Del ''u1'']
   \<and> locks (rd (snd (processCheckout demo_env demo_request demo_world))) ''u1'' = None
   \<and> idem (rd (snd (processCheckout demo_env demo_request demo_world))) ''p1'' =
       Some \<lparr>OrderID = ''o1'', Status = ''pending'', Total = 66.38\<rparr>
   \<and> calls_since sold_out_world (snd (processCheckout demo_env demo_request sold_out_world)) =
     [Redis_Get ''p1'', Redis_Incr ''u1'' 28333333, Redis_Expire ''u1'' 28333333 90,
      Redis_SetNX ''u1'' 5, Tx_Begin, Tx_Rollback, Redis_Del ''u1'']
   \<and> idem (rd (snd (processCheckout demo_env demo_request sold_out_world))) ''p1'' = None"
proof -
  let ?ok = "processCheckout demo_env demo_request demo_world"
  let ?ko = "processCheckout demo_env demo_request sold_out_world"
  let ?resp = "\<lparr>OrderID = ''o1'', Status = ''pending'', Total = 66.38\<rparr>"
  have ok: "calls_since demo_world (snd ?ok) =
     [Redis_Get ''p1'', Redis_Incr ''u1'' 28333333, Redis_Expire ''u1'' 28333333 90,
      Redis_SetNX ''u1'' 5, Tx_Begin, Tx_Commit, Redis_Keys ''u1'', Redis_ZIncrBy ''u1'',
      Redis_XAdd ''u1'', Tx_Rollback, Redis_SetEx ''p1'' 600, Redis_Del ''u1'']"
    by (simp add: run_defs)
  have ko: "calls_since sold_out_world (snd ?ko) =
     [Redis_Get ''p1'', Redis_Incr ''u1'' 28333333, Redis_Expire ''u1'' 28333333 90,
      Redis_SetNX ''u1'' 5, Tx_Begin, Tx_Rollback, Redis_Del ''u1'']"
    by (simp add: run_defs)
  have committed: "fst ?ok = Inr ?resp"
    by (simp add: run_defs)
  have failed: "isl (fst ?ko)"
    by (simp add: run_defs)
  have free: "fault demo_env (Redis_SetNX (UserID demo_request) 5) = None"
    "fault demo_env (Redis_Del (UserID demo_request)) = None"
    "fault demo_env (Redis_SetEx (PaymentRef demo_request) 600) = None"
    "locks (rd demo_world) (UserID demo_request) = None"
    "locks (rd sold_out_world) (UserID demo_request) = None"
    "UserID demo_request = ''u1''" "PaymentRef demo_request = ''p1''"
    "idem (rd sold_out_world) ''p1'' = None"
    by (simp_all add: demo_defs)
  have "locks (rd (snd ?ok)) ''u1'' = None \<and> idem (rd (snd ?ok)) ''p1'' = Some ?resp"
    using lock_release_and_idempotency_write [OF prod.collapse [symmetric], of demo_env demo_request demo_world]
      ok committed free by simp
  moreover have "idem (rd (snd ?ko)) ''p1'' = None"
    using lock_release_and_idempotency_write [OF prod.collapse [symmetric], of demo_env demo_request sold_out_world]
      failed free by simp
  ultimately show ?thesis using ok ko by blast
qed

subsection \<open>Status of a failed checkout\<close>

text \<open>
  C9. When the request passes the handler's validation and \<open>processCheckout\<close> fails, the
  status of the reply is 429 for the rate limit, 409 for a checkout in progress, 400 for an
  invalid cart, an empty cart, an invalid coupon and a coupon already used, 409 for
  insufficient inventory, and 500 for every error with another message; the body carries
  the error's message.
\<close>

theorem checkout_error_status:
  assumes "UserID req \<noteq> []" and "CartID req \<noteq> []" and "PaymentRef req \<noteq> []"
    and "Items req \<noteq> []"
    and "processCheckout e req w = (Inl err, w')"
  shows "Checkout e (Inr req) w =
           (\<lparr>status =
               (case err of
                  RateLimited \<Rightarrow> 429
                | LockDenied \<Rightarrow> 409
                | CartInvalid \<Rightarrow> 400
                | CartEmpty \<Rightarrow> 400
                | CouponInvalid \<Rightarrow> 400
                | CouponAlreadyUsed \<Rightarrow> 400
                | InsufficientInventory \<Rightarrow> 409
                | Backend m \<Rightarrow>
                    if m \<in> Error ` {RateLimited, LockDenied, CartInvalid, CartEmpty,
                                     CouponInvalid, CouponAlreadyUsed, InsufficientInventory}
                    then statusFor m else 500),
             payload = ErrorJSON (Error err)\<rparr>, w')"
  using assms by (cases err) (auto simp: Checkout_def statusFor_def)

theorem checkout_error_status_witness:
  "fst (Checkout demo_env (Inr demo_request) sold_out_world) =
     \<lparr>status = 409, payload = ErrorJSON ''Insufficient inventory''\<rparr>
   \<and> fst (Checkout (demo_env\<lparr>fault := (\<lambda>c. if c = Tx_Begin then Some ''conn refused'' else None)\<rparr>)
          (Inr demo_request) demo_world) =
     \<lparr>status = 500, payload = ErrorJSON ''conn refused''\<rparr>"
proof -
  let ?e = "demo_env\<lparr>fault := (\<lambda>c. if c = Tx_Begin then Some ''conn refused'' else None)\<rparr>"
  have valid: "UserID demo_request \<noteq> []" "CartID demo_request \<noteq> []"
    "PaymentRef demo_request \<noteq> []" "Items demo_request \<noteq> []"
    by (simp_all add: demo_defs)
  have run1: "processCheckout demo_env demo_request sold_out_world =
      (Inl InsufficientInventory, snd (processCheckout demo_env demo_request sold_out_world))"
    by (simp add: run_defs)
  have run2: "processCheckout ?e demo_request demo_world =
      (Inl (Backend ''conn refused''), snd (processCheckout ?e demo_request demo_world))"
    by (simp add: run_defs)
  show ?thesis
    using checkout_error_status [OF valid run1] checkout_error_status [OF valid run2]
    by simp
qed

subsection \<open>Validation of the request\<close>

text \<open>
  C10. A request with an empty userId, cartId or paymentRef, or with no items, is answered
  with status 400 and the world is left as it was: no call on the idempotency store, the
  rate limiter or the lock is attempted. So a retry of a committed payment reference that
  carries no items is rejected, not replayed, although \<open>processCheckout\<close> itself never
  reads the items of the body: its result is the same whatever they are.
\<close>

theorem checkout_rejects_incomplete_request:
  assumes "UserID req = [] \<or> CartID req = [] \<or> PaymentRef req = [] \<or> Items req = []"
  shows "status (fst (Checkout e (Inr req) w)) = 400
         \<and> snd (Checkout e (Inr req) w) = w
         \<and> calls_since w (snd (Checkout e (Inr req) w)) = []
         \<and> processCheckout e (req\<lparr>Items := xs\<rparr>) w = processCheckout e req w"
  using assms by (auto simp: Checkout_def calls_since_def processCheckout_ignores_items)

theorem checkout_rejects_incomplete_request_witness:
  "idem (rd replay_world) (PaymentRef demo_request) = Some stored_response
   \<and> Checkout demo_env (Inr (demo_request\<lparr>Items := []\<rparr>)) replay_world =
       (\<lparr>status = 400, payload = ErrorJSON ''items are required''\<rparr>, replay_world)
   \<and> fst (Checkout demo_env (Inr demo_request) replay_world) =
       \<lparr>status = 200, payload = ResultJSON stored_response\<rparr>"
proof -
  have empty: "UserID (demo_request\<lparr>Items := []\<rparr>) = [] \<or> CartID (demo_request\<lparr>Items := []\<rparr>) = []
      \<or> PaymentRef (demo_request\<lparr>Items := []\<rparr>) = [] \<or> Items (demo_request\<lparr>Items := []\<rparr>) = []"
    by simp
  show ?thesis
    using checkout_rejects_incomplete_request [OF empty, of demo_env replay_world]
    by (simp add: run_defs)
qed

end
